theory Spec2Isabelle
  imports Complex_Main "HOL-Library.Char_ord" "HOL-Library.List_Lexorder"
    "HOL-Library.Product_Lexorder"
begin

section \<open>Python floats\<close>

text \<open>
  The amounts and the rate of \<^verbatim>\<open>telegram_bot.py\<close> are Python floats. A float is
  modelled as a finite real or one of the three special values. The special values
  follow IEEE 754. Finite values are exact reals: the model does not round, so a finite
  result is the exact one where Python gives the nearest double, and it neither
  overflows nor underflows (\<^verbatim>\<open>float('1e309')\<close> is \<^verbatim>\<open>inf\<close> and \<^verbatim>\<open>float('1e-324')\<close>
  is \<^verbatim>\<open>0.0\<close> in Python; the model keeps the two numbers). Zero has no sign.
\<close>

datatype pyfloat = Fin real | PInf | NInf | NaN

text \<open>The exceptions that the code can raise outside a \<^verbatim>\<open>try\<close>.\<close>

datatype halt = ZeroDivisionError | TypeError

text \<open>Unary minus, \<^verbatim>\<open>abs\<close>, the comparisons \<^verbatim>\<open><\<close> and \<^verbatim>\<open><=\<close> (false whenever
  an operand is NaN), addition, subtraction, truth value and true division.\<close>

fun f_neg :: "pyfloat \<Rightarrow> pyfloat" where
  "f_neg (Fin x) = Fin (- x)"
| "f_neg PInf = NInf"
| "f_neg NInf = PInf"
| "f_neg NaN = NaN"

fun f_abs :: "pyfloat \<Rightarrow> pyfloat" where
  "f_abs (Fin x) = Fin \<bar>x\<bar>"
| "f_abs PInf = PInf"
| "f_abs NInf = PInf"
| "f_abs NaN = NaN"

fun f_lt :: "pyfloat \<Rightarrow> pyfloat \<Rightarrow> bool" where
  "f_lt (Fin x) (Fin y) = (x < y)"
| "f_lt NaN _ = False"
| "f_lt _ NaN = False"
| "f_lt _ NInf = False"
| "f_lt PInf _ = False"
| "f_lt NInf _ = True"
| "f_lt _ PInf = True"

fun f_le :: "pyfloat \<Rightarrow> pyfloat \<Rightarrow> bool" where
  "f_le (Fin x) (Fin y) = (x \<le> y)"
| "f_le NaN _ = False"
| "f_le _ NaN = False"
| "f_le NInf _ = True"
| "f_le _ PInf = True"
| "f_le _ NInf = False"
| "f_le PInf _ = False"

fun f_add :: "pyfloat \<Rightarrow> pyfloat \<Rightarrow> pyfloat" where
  "f_add (Fin x) (Fin y) = Fin (x + y)"
| "f_add NaN _ = NaN"
| "f_add _ NaN = NaN"
| "f_add PInf NInf = NaN"
| "f_add NInf PInf = NaN"
| "f_add PInf _ = PInf"
| "f_add _ PInf = PInf"
| "f_add NInf _ = NInf"
| "f_add _ NInf = NInf"

definition f_sub :: "pyfloat \<Rightarrow> pyfloat \<Rightarrow> pyfloat" where
  "f_sub a b = f_add a (f_neg b)"

definition truthy :: "pyfloat \<Rightarrow> bool" where
  "truthy x = (x \<noteq> Fin 0)"

definition truediv :: "pyfloat \<Rightarrow> pyfloat \<Rightarrow> halt + pyfloat" where
  "truediv a b =
     (case b of
        Fin y \<Rightarrow>
          if y = 0 then Inl ZeroDivisionError
          else (case a of
                  Fin x \<Rightarrow> Inr (Fin (x / y))
                | PInf \<Rightarrow> Inr (if 0 < y then PInf else NInf)
                | NInf \<Rightarrow> Inr (if 0 < y then NInf else PInf)
                | NaN \<Rightarrow> Inr NaN)
      | NaN \<Rightarrow> Inr NaN
      | _ \<Rightarrow> (case a of Fin x \<Rightarrow> Inr (Fin 0) | _ \<Rightarrow> Inr NaN))"

section \<open>Strings, the pattern and \<^verbatim>\<open>float\<close>\<close>

text \<open>
  A character is a code point from 0 to 255, so a text is a Python string of such code
  points; texts with other code points are outside the model. \<open>is_space\<close> is what
  \<^verbatim>\<open>str.strip\<close> and the pattern's \<^verbatim>\<open>\s\<close> take for whitespace there: tab, line feed,
  vertical tab, form feed, carriage return, the four separators 0x1C to 0x1F, the
  space, U+0085 and U+00A0. \<^verbatim>\<open>float\<close> strips less: it turns the whitespace above
  U+007F into a space and then strips the whitespace of C (tab to carriage return, and
  the space), so it does not strip 0x1C to 0x1F: \<open>float_space\<close>. \<open>is_digit\<close> is
  \<^verbatim>\<open>[0-9]\<close>, which is also all that \<^verbatim>\<open>\d\<close> and \<^verbatim>\<open>float\<close> take for a digit up to
  U+00FF.
\<close>

definition is_space :: "char \<Rightarrow> bool" where
  "is_space c = (c \<in> set [CHR 0x09, CHR 0x0A, CHR 0x0B, CHR 0x0C, CHR 0x0D,
                            CHR 0x1C, CHR 0x1D, CHR 0x1E, CHR 0x1F, CHR '' '',
                            CHR 0x85, CHR 0xA0])"

definition float_space :: "char \<Rightarrow> bool" where
  "float_space c = (c \<in> set [CHR 0x09, CHR 0x0A, CHR 0x0B, CHR 0x0C, CHR 0x0D, CHR '' '',
                               CHR 0x85, CHR 0xA0])"

definition is_digit :: "char \<Rightarrow> bool" where
  "is_digit c = (c \<in> set ''0123456789'')"

definition strip :: "string \<Rightarrow> string" where
  "strip s = rev (dropWhile is_space (rev (dropWhile is_space s)))"

definition float_strip :: "string \<Rightarrow> string" where
  "float_strip s = rev (dropWhile float_space (rev (dropWhile float_space s)))"

definition digit_val :: "char \<Rightarrow> nat" where
  "digit_val c = length (takeWhile (\<lambda>d. d \<noteq> c) ''0123456789'')"

definition digits_val :: "string \<Rightarrow> nat" where
  "digits_val ds = foldl (\<lambda>n c. 10 * n + digit_val c) 0 ds"

definition lower :: "char \<Rightarrow> char" where
  "lower c =
     (case map_of (zip ''ABCDEFGHIJKLMNOPQRSTUVWXYZ'' ''abcdefghijklmnopqrstuvwxyz'') c of
        Some d \<Rightarrow> d
      | None \<Rightarrow> c)"

subsection \<open>The function \<^verbatim>\<open>float\<close> on a string\<close>

text \<open>
  The grammar of the Python reference for \<^verbatim>\<open>float(str)\<close>, after the whitespace at
  the two ends is stripped: an optional sign, then \<^verbatim>\<open>inf\<close>, \<^verbatim>\<open>infinity\<close> or \<^verbatim>\<open>nan\<close> in any case, or
  a number \<^verbatim>\<open>[digitpart] "." digitpart | digitpart ["."]\<close> with an optional exponent
  \<^verbatim>\<open>("e" | "E") [sign] digitpart\<close>, where \<^verbatim>\<open>digitpart\<close> is digits with single
  underscores between them. \<open>None\<close> is the \<^verbatim>\<open>ValueError\<close>.
\<close>

fun digitpart :: "string \<Rightarrow> bool" where
  "digitpart [] = False"
| "digitpart [c] = is_digit c"
| "digitpart (c # d # cs) =
     (is_digit c \<and> (if d = CHR ''_'' then digitpart cs else digitpart (d # cs)))"

definition number_val :: "string \<Rightarrow> nat" where
  "number_val ds = digits_val (filter is_digit ds)"

definition mantissa :: "string \<Rightarrow> real option" where
  "mantissa m =
     (let ip = takeWhile (\<lambda>c. c \<noteq> CHR ''.'') m;
          r = dropWhile (\<lambda>c. c \<noteq> CHR ''.'') m
      in case r of
           [] \<Rightarrow> if digitpart ip then Some (real (number_val ip)) else None
         | _ # fp \<Rightarrow>
             if fp = [] then (if digitpart ip then Some (real (number_val ip)) else None)
             else if (ip = [] \<or> digitpart ip) \<and> digitpart fp
             then Some (real (number_val ip)
                        + real (number_val fp) / 10 ^ length (filter is_digit fp))
             else None)"

definition signed_digits :: "string \<Rightarrow> int option" where
  "signed_digits r =
     (case r of
        [] \<Rightarrow> None
      | c # ds \<Rightarrow>
          if c = CHR ''-'' then (if digitpart ds then Some (- int (number_val ds)) else None)
          else if c = CHR ''+'' then (if digitpart ds then Some (int (number_val ds)) else None)
          else if digitpart r then Some (int (number_val r)) else None)"

definition exponent :: "string \<Rightarrow> int option" where
  "exponent x = (case x of [] \<Rightarrow> Some 0 | _ # r \<Rightarrow> signed_digits r)"

definition scale10 :: "real \<Rightarrow> int \<Rightarrow> real" where
  "scale10 m e = (if 0 \<le> e then m * 10 ^ nat e else m / 10 ^ nat (- e))"

definition is_e :: "char \<Rightarrow> bool" where
  "is_e c = (c = CHR ''e'' \<or> c = CHR ''E'')"

definition floatnumber :: "string \<Rightarrow> real option" where
  "floatnumber u =
     (case (mantissa (takeWhile (\<lambda>c. \<not> is_e c) u),
            exponent (dropWhile (\<lambda>c. \<not> is_e c) u)) of
        (Some m, Some e) \<Rightarrow> Some (scale10 m e)
      | _ \<Rightarrow> None)"

definition absfloatvalue :: "string \<Rightarrow> pyfloat option" where
  "absfloatvalue u =
     (let l = map lower u
      in if l = ''inf'' \<or> l = ''infinity'' then Some PInf
         else if l = ''nan'' then Some NaN
         else map_option Fin (floatnumber u))"

definition py_float :: "string \<Rightarrow> pyfloat option" where
  "py_float s =
     (case float_strip s of
        [] \<Rightarrow> None
      | c # r \<Rightarrow>
          if c = CHR ''-'' then map_option f_neg (absfloatvalue r)
          else if c = CHR ''+'' then absfloatvalue r
          else absfloatvalue (c # r))"

text \<open>\<^verbatim>\<open>token.replace(',', '')\<close> and \<^verbatim>\<open>parse_signed_token\<close>.\<close>

definition remove_commas :: "string \<Rightarrow> string" where
  "remove_commas t = filter (\<lambda>c. c \<noteq> CHR '','') t"

definition parse_signed_token :: "string \<Rightarrow> pyfloat option" where
  "parse_signed_token token = py_float (remove_commas token)"

subsection \<open>The pattern \<^verbatim>\<open>SINGLE_SIGN_NUMBER_RE\<close>\<close>

text \<open>
  \<^verbatim>\<open>^\s*([+-][0-9]{1,3}(?:,[0-9]{3})*(?:\.\d+)?|[+-][0-9]+(?:\.\d+)?)\s*$\<close>.
  No character of the group is whitespace and only whitespace may follow the group, so
  the group is the text from the first character that is not whitespace to the next
  whitespace, and it must be in one of the two alternatives as a whole. After a run of
  digits comes a comma, a point or the end, so the run of an alternative is the longest
  run. \<open>re_match\<close> returns \<^verbatim>\<open>m.group(1)\<close>, and \<open>None\<close> when there is no match.
\<close>

definition sign_char :: "char \<Rightarrow> bool" where
  "sign_char c = (c = CHR ''+'' \<or> c = CHR ''-'')"

text \<open>\<^verbatim>\<open>(?:\.\d+)?\<close> up to the end of the group.\<close>

definition frac_opt :: "string \<Rightarrow> bool" where
  "frac_opt r =
     (case r of [] \<Rightarrow> True | c # fs \<Rightarrow> c = CHR ''.'' \<and> fs \<noteq> [] \<and> list_all is_digit fs)"

text \<open>\<^verbatim>\<open>(?:,[0-9]{3})*(?:\.\d+)?\<close> up to the end of the group.\<close>

fun comma_groups :: "string \<Rightarrow> bool" where
  "comma_groups (x # a # b # c # r) =
     (if x = CHR '','' then is_digit a \<and> is_digit b \<and> is_digit c \<and> comma_groups r
      else frac_opt (x # a # b # c # r))"
| "comma_groups r = frac_opt r"

definition alt_grouped :: "string \<Rightarrow> bool" where
  "alt_grouped tok =
     (case tok of
        [] \<Rightarrow> False
      | c # cs \<Rightarrow>
          sign_char c \<and> 1 \<le> length (takeWhile is_digit cs)
          \<and> length (takeWhile is_digit cs) \<le> 3 \<and> comma_groups (dropWhile is_digit cs))"

definition alt_plain :: "string \<Rightarrow> bool" where
  "alt_plain tok =
     (case tok of
        [] \<Rightarrow> False
      | c # cs \<Rightarrow>
          sign_char c \<and> takeWhile is_digit cs \<noteq> [] \<and> frac_opt (dropWhile is_digit cs))"

definition re_match :: "string \<Rightarrow> string option" where
  "re_match s =
     (let t = dropWhile is_space s;
          tok = takeWhile (\<lambda>c. \<not> is_space c) t;
          rest = dropWhile (\<lambda>c. \<not> is_space c) t
      in if (alt_grouped tok \<or> alt_plain tok) \<and> list_all is_space rest then Some tok
         else None)"


section \<open>The database\<close>

text \<open>
  \<^verbatim>\<open>init_db\<close> creates two tables. The columns \<^verbatim>\<open>amount_inr\<close> and \<^verbatim>\<open>amount_usdt\<close>
  of \<^verbatim>\<open>entries\<close> are REAL: a value there is NULL, a finite number or an infinity.
  SQLite stores a NaN that is bound to a statement as NULL (\<open>bind_real\<close>), and Python
  reads NULL back as \<^verbatim>\<open>None\<close> (\<open>fetch_real\<close>).
\<close>

datatype sqlreal = SqlNull | SqlReal real | SqlPosInf | SqlNegInf

fun bind_real :: "pyfloat \<Rightarrow> sqlreal" where
  "bind_real (Fin x) = SqlReal x"
| "bind_real PInf = SqlPosInf"
| "bind_real NInf = SqlNegInf"
| "bind_real NaN = SqlNull"

fun fetch_real :: "sqlreal \<Rightarrow> pyfloat option" where
  "fetch_real SqlNull = None"
| "fetch_real (SqlReal x) = Some (Fin x)"
| "fetch_real SqlPosInf = Some PInf"
| "fetch_real SqlNegInf = Some NInf"

text \<open>
  A row of \<^verbatim>\<open>entries\<close> is a record. The table is declared \<^verbatim>\<open>INTEGER PRIMARY KEY
  AUTOINCREMENT\<close>, so SQLite keeps the largest id it ever gave out (in its
  \<^verbatim>\<open>sqlite_sequence\<close> table): the field \<open>seq\<close>.

  The table \<^verbatim>\<open>meta\<close> maps a key to a TEXT value. The program reads a value only
  through \<^verbatim>\<open>float\<close> and writes only \<^verbatim>\<open>str(rate)\<close>, and \<^verbatim>\<open>float(str(x))\<close>
  gives \<open>x\<close> back, so a value is kept as what \<^verbatim>\<open>float\<close> makes of it:
  \<open>FloatText x\<close> is a text that \<^verbatim>\<open>float\<close> reads as \<open>x\<close>, \<open>OtherText t\<close> is a text
  \<open>t\<close> (or NULL) on which \<^verbatim>\<open>float\<close> raises.
\<close>

record entry =
  eid :: nat
  user_id :: int
  username :: string
  amount_inr :: sqlreal
  amount_usdt :: sqlreal
  ts :: string

datatype meta_text = FloatText pyfloat | OtherText string

record db =
  entries :: "entry list"
  seq :: nat
  meta :: "string \<Rightarrow> meta_text option"

definition DEFAULT_RATE :: pyfloat where
  "DEFAULT_RATE = Fin (187 / 2)"

definition empty_db :: db where
  "empty_db = \<lparr>entries = [], seq = 0, meta = Map.empty\<rparr>"

text \<open>\<^verbatim>\<open>REPLACE INTO meta (key, value) VALUES ('rate', str(rate))\<close>.\<close>

definition set_rate :: "pyfloat \<Rightarrow> db \<Rightarrow> db" where
  "set_rate rate s = s\<lparr>meta := (meta s)(''rate'' \<mapsto> FloatText rate)\<rparr>"

text \<open>\<^verbatim>\<open>init_db\<close>: the tables are created if they do not exist, and
  \<^verbatim>\<open>INSERT OR IGNORE\<close> writes the default rate only where no rate is stored.\<close>

definition init_db :: "db \<Rightarrow> db" where
  "init_db s = (case meta s ''rate'' of None \<Rightarrow> set_rate DEFAULT_RATE s | Some _ \<Rightarrow> s)"

text \<open>\<^verbatim>\<open>get_rate\<close> returns the rate and the database, which it writes when no row is
  stored. A row that \<^verbatim>\<open>float\<close> rejects takes the \<^verbatim>\<open>except\<close> branch.\<close>

definition get_rate :: "db \<Rightarrow> pyfloat \<times> db" where
  "get_rate s =
     (case meta s ''rate'' of
        Some (FloatText x) \<Rightarrow> (x, s)
      | Some (OtherText t) \<Rightarrow> (DEFAULT_RATE, s)
      | None \<Rightarrow> (DEFAULT_RATE, set_rate DEFAULT_RATE s))"

text \<open>\<^verbatim>\<open>SELECT MAX(id) FROM entries\<close>: NULL on the empty table.\<close>

definition max_id :: "entry list \<Rightarrow> nat option" where
  "max_id es = (case es of [] \<Rightarrow> None | _ \<Rightarrow> Some (fold max (map eid es) 0))"

text \<open>The id AUTOINCREMENT gives a new row: one more than the largest id that ever
  was in the table.\<close>

definition next_id :: "db \<Rightarrow> nat" where
  "next_id s = Suc (max (seq s) (case max_id (entries s) of None \<Rightarrow> 0 | Some m \<Rightarrow> m))"

text \<open>\<^verbatim>\<open>amount_inr and amount_usdt or 0.0\<close>, the value of the first write: NaN and the
  infinities are true.\<close>

definition and_or_zero :: "pyfloat \<Rightarrow> pyfloat \<Rightarrow> pyfloat" where
  "and_or_zero a u = (if truthy a \<and> truthy u then u else Fin 0)"

text \<open>\<^verbatim>\<open>UPDATE entries SET amount_usdt = ? WHERE id = (SELECT MAX(id) FROM entries)\<close>.\<close>

definition update_usdt_of_max :: "sqlreal \<Rightarrow> entry list \<Rightarrow> entry list" where
  "update_usdt_of_max u es =
     map (\<lambda>e. if Some (eid e) = max_id es then e\<lparr>amount_usdt := u\<rparr> else e) es"

text \<open>\<^verbatim>\<open>add_entry\<close>: the INSERT, then the UPDATE, then \<^verbatim>\<open>cur.lastrowid\<close> (the id of
  the INSERT). The timestamp \<open>now\<close> is \<^verbatim>\<open>datetime.now().astimezone().isoformat()\<close>.\<close>

definition add_entry ::
  "int \<Rightarrow> string \<Rightarrow> pyfloat \<Rightarrow> pyfloat \<Rightarrow> string \<Rightarrow> db \<Rightarrow> nat \<times> db" where
  "add_entry uid name a_inr a_usdt now s =
     (let nid = next_id s;
          row = \<lparr>eid = nid, user_id = uid, username = name, amount_inr = bind_real a_inr,
                 amount_usdt = bind_real (and_or_zero a_inr a_usdt), ts = now\<rparr>;
          s1 = s\<lparr>entries := entries s @ [row], seq := nid\<rparr>;
          s2 = s1\<lparr>entries := update_usdt_of_max (bind_real a_usdt) (entries s1)\<rparr>
      in (nid, s2))"

text \<open>\<^verbatim>\<open>ORDER BY id DESC\<close> and \<^verbatim>\<open>LIMIT ?\<close> (a negative limit is no limit in
  SQLite).\<close>

definition order_by_id_desc :: "entry list \<Rightarrow> entry list" where
  "order_by_id_desc es = rev (sort_key eid es)"

definition sql_limit :: "int \<Rightarrow> 'a list \<Rightarrow> 'a list" where
  "sql_limit n xs = (if n < 0 then xs else take (nat n) xs)"

definition delete_last_entry :: "db \<Rightarrow> nat option \<times> db" where
  "delete_last_entry s =
     (case sql_limit 1 (order_by_id_desc (entries s)) of
        [] \<Rightarrow> (None, s)
      | row # _ \<Rightarrow>
          (Some (eid row), s\<lparr>entries := filter (\<lambda>e. eid e \<noteq> eid row) (entries s)\<rparr>))"

definition reset_ledger :: "db \<Rightarrow> db" where
  "reset_ledger s = s\<lparr>entries := []\<rparr>"

text \<open>\<^verbatim>\<open>get_last_entries\<close> selects id, username, amount_inr, amount_usdt, ts.\<close>

type_synonym recent_row = "nat \<times> string \<times> sqlreal \<times> sqlreal \<times> string"

definition recent_cols :: "entry \<Rightarrow> recent_row" where
  "recent_cols e = (eid e, username e, amount_inr e, amount_usdt e, ts e)"

definition get_last_entries :: "int \<Rightarrow> db \<Rightarrow> recent_row list" where
  "get_last_entries limit s = map recent_cols (sql_limit limit (order_by_id_desc (entries s)))"

section \<open>The report\<close>

text \<open>
  \<^verbatim>\<open>build_report\<close> runs three queries and lays the result out as text. The model
  keeps the numbers and the order of the rows; the rendering of a number
  (\<^verbatim>\<open>format_num\<close>, \<^verbatim>\<open>format_commas\<close>) and of a timestamp is left out.
\<close>

subsection \<open>SQL on a REAL column\<close>

text \<open>
  \<^verbatim>\<open>SUM\<close> skips NULL and is NULL when no value is left; it adds the values as
  floats, one after the other from 0.0, and a sum that is NaN (an infinity plus the
  other infinity) comes out as NULL. \<^verbatim>\<open>x > 0\<close> and \<^verbatim>\<open>x < 0\<close> are not true of NULL.
\<close>

definition sql_sum :: "sqlreal list \<Rightarrow> sqlreal" where
  "sql_sum vs =
     (case List.map_filter fetch_real vs of
        [] \<Rightarrow> SqlNull
      | x # xs \<Rightarrow> bind_real (foldl f_add (Fin 0) (x # xs)))"

fun sql_gt0 :: "sqlreal \<Rightarrow> bool" where
  "sql_gt0 (SqlReal x) = (0 < x)"
| "sql_gt0 SqlPosInf = True"
| "sql_gt0 _ = False"

fun sql_lt0 :: "sqlreal \<Rightarrow> bool" where
  "sql_lt0 (SqlReal x) = (x < 0)"
| "sql_lt0 SqlNegInf = True"
| "sql_lt0 _ = False"

text \<open>The key of \<^verbatim>\<open>ORDER BY s_inr DESC\<close>: the positive infinity first, then the
  numbers from the largest down, then the negative infinity, and NULL last.\<close>

fun desc_key :: "sqlreal \<Rightarrow> nat \<times> real" where
  "desc_key SqlPosInf = (0, 0)"
| "desc_key (SqlReal x) = (1, - x)"
| "desc_key SqlNegInf = (2, 0)"
| "desc_key SqlNull = (3, 0)"

subsection \<open>The three queries\<close>

type_synonym user_row = "string \<times> sqlreal \<times> sqlreal"

text \<open>
  \<^verbatim>\<open>SELECT COALESCE(username, "Unknown"), SUM(amount_inr) as s_inr, SUM(amount_usdt)
  as s_usdt FROM entries GROUP BY username ORDER BY s_inr DESC\<close>. The column username
  is never NULL (\<^verbatim>\<open>add_entry\<close> writes a string). SQL leaves the order of groups with
  equal sums open. SQLite forms the groups in ascending order of the username (the
  order of the code points) and its sort for \<^verbatim>\<open>ORDER BY s_inr DESC\<close> returns groups
  with equal sums in the reverse of that order: so does the model.
\<close>

definition group_rows :: "string \<Rightarrow> entry list \<Rightarrow> entry list" where
  "group_rows name es = filter (\<lambda>e. username e = name) es"

definition group_by_username :: "entry list \<Rightarrow> user_row list" where
  "group_by_username es =
     map (\<lambda>name. (name, sql_sum (map amount_inr (group_rows name es)),
                   sql_sum (map amount_usdt (group_rows name es))))
       (sort (remdups (map username es)))"

definition per_user_query :: "entry list \<Rightarrow> user_row list" where
  "per_user_query es =
     sort_key (\<lambda>row. desc_key (fst (snd row))) (rev (group_by_username es))"

text \<open>\<^verbatim>\<open>SUM(CASE WHEN x>0 THEN x ELSE 0 END)\<close> and the same with \<^verbatim>\<open>x<0\<close>, for the two
  amounts.\<close>

definition totals_query :: "entry list \<Rightarrow> sqlreal \<times> sqlreal \<times> sqlreal \<times> sqlreal" where
  "totals_query es =
     (sql_sum (map (\<lambda>e. if sql_gt0 (amount_inr e) then amount_inr e else SqlReal 0) es),
      sql_sum (map (\<lambda>e. if sql_lt0 (amount_inr e) then amount_inr e else SqlReal 0) es),
      sql_sum (map (\<lambda>e. if sql_gt0 (amount_usdt e) then amount_usdt e else SqlReal 0) es),
      sql_sum (map (\<lambda>e. if sql_lt0 (amount_usdt e) then amount_usdt e else SqlReal 0) es))"

text \<open>\<^verbatim>\<open>row[i] or 0.0\<close> turns \<^verbatim>\<open>None\<close> and zero into zero.\<close>

definition or_zero :: "sqlreal \<Rightarrow> pyfloat" where
  "or_zero v = (case fetch_real v of None \<Rightarrow> Fin 0 | Some x \<Rightarrow> if truthy x then x else Fin 0)"

subsection \<open>\<^verbatim>\<open>build_report\<close>\<close>

text \<open>The loop of lines 212 to 220: \<open>found\<close> is the last row of the user, the other
  rows are appended to \<open>reordered\<close> in their order.\<close>

definition reorder_step ::
  "string \<Rightarrow> user_row \<Rightarrow> user_row option \<times> user_row list \<Rightarrow> user_row option \<times> user_row list"
  where
  "reorder_step last_user row acc =
     (if fst row = last_user then (Some row, snd acc) else (fst acc, snd acc @ [row]))"

definition move_last_user :: "string \<Rightarrow> user_row list \<Rightarrow> user_row list" where
  "move_last_user last_user per_user =
     (case fold (reorder_step last_user) per_user (None, []) of
        (Some found, reordered) \<Rightarrow> found # reordered
      | (None, reordered) \<Rightarrow> per_user)"

record report =
  r_per_user :: "user_row list"
  r_recent :: "recent_row list"
  r_gross_inr :: pyfloat
  r_refunded_inr :: pyfloat
  r_net_inr :: pyfloat
  r_gross_usdt :: pyfloat
  r_refunded_usdt :: pyfloat
  r_net_usdt :: pyfloat
  r_rate :: pyfloat

text \<open>
  What \<^verbatim>\<open>build_report\<close> computes in lines 166 to 221 and prints in lines 223 to 260:
  the rows of the per-user section in the order shown, the recent entries, the six
  totals and the rate. An empty \<open>r_per_user\<close> is printed as "No user totals yet.", an
  empty \<open>r_recent\<close> as "No recent entries.".
\<close>

definition report_of :: "int \<Rightarrow> db \<Rightarrow> report" where
  "report_of latest_n s =
     (let per_user = per_user_query (entries s);
          recent = get_last_entries latest_n s;
          row = totals_query (entries s);
          gross_inr = or_zero (fst row);
          refunded_inr = f_neg (or_zero (fst (snd row)));
          gross_usdt = or_zero (fst (snd (snd row)));
          refunded_usdt = f_neg (or_zero (snd (snd (snd row))));
          net_inr = f_sub gross_inr refunded_inr;
          net_usdt = f_sub gross_usdt refunded_usdt;
          shown =
            (if per_user \<noteq> [] then
               (case recent of
                  [] \<Rightarrow> per_user
                | first # _ \<Rightarrow>
                    (let last_user = fst (snd first)
                     in if last_user \<noteq> [] then move_last_user last_user per_user
                        else per_user))
             else [])
      in \<lparr>r_per_user = shown, r_recent = recent,
          r_gross_inr = gross_inr, r_refunded_inr = refunded_inr, r_net_inr = net_inr,
          r_gross_usdt = gross_usdt, r_refunded_usdt = refunded_usdt,
          r_net_usdt = net_usdt, r_rate = fst (get_rate s)\<rparr>)"

text \<open>
  The loop over the recent entries (lines 232 to 246) evaluates \<^verbatim>\<open>inr >= 0\<close>,
  \<^verbatim>\<open>abs(inr)\<close> and \<^verbatim>\<open>abs(usdt)\<close> outside a \<^verbatim>\<open>try\<close>: on an amount that is
  \<^verbatim>\<open>None\<close> it raises \<^verbatim>\<open>TypeError\<close>. \<^verbatim>\<open>format_commas\<close> and \<^verbatim>\<open>format_num\<close> catch
  their own exceptions.
\<close>

definition recent_raises :: "recent_row list \<Rightarrow> bool" where
  "recent_raises rows =
     list_ex (\<lambda>row. fst (snd (snd row)) = SqlNull \<or> fst (snd (snd (snd row))) = SqlNull) rows"

text \<open>\<^verbatim>\<open>build_report\<close>: the report, or the exception of the loop. The last line calls
  \<^verbatim>\<open>get_rate()\<close>, which may write the default rate; an exception comes before it.\<close>

definition build_report :: "int \<Rightarrow> db \<Rightarrow> halt + (report \<times> db)" where
  "build_report latest_n s =
     (if recent_raises (get_last_entries latest_n s) then Inl TypeError
      else Inr (report_of latest_n s, snd (get_rate s)))"


section \<open>The handlers\<close>

text \<open>
  What a handler reads of the update: the sender of the message replied to (\<open>None\<close>
  when the message is no reply), the text, the arguments of a command, and the status
  that \<^verbatim>\<open>get_chat_member\<close> reports for the sender (\<open>None\<close> when the call raises).
  A handler returns the database and the messages it sends; \<open>Uncaught h\<close> marks a
  handler that ends in the exception \<open>h\<close>, which the library logs.
\<close>

record tg_user =
  u_id :: int
  u_username :: "string option"
  u_first_name :: "string option"
  u_last_name :: "string option"

record message =
  m_text :: "string option"
  m_reply_to :: "tg_user option"
  m_from :: tg_user

datatype reply =
    OnlyAdminsRecord | PermissionFailedRecord
  | Recorded "string option" string pyfloat pyfloat
  | ReportText report
  | OnlyAdminsRate | PermissionFailed | CurrentRate pyfloat | ProvideValidRate
  | RateUpdated pyfloat
  | OnlyAdminsAdd | InvalidAmountReply | InvalidAmountUsage | Added string pyfloat pyfloat
  | UsageAdd
  | OnlyAdminsUndo | NoEntriesToDelete | LastEntryDeleted nat
  | ResetCancelled | OnlyAdminsConfirm | ResetAborted | LedgerReset
  | Uncaught halt

definition is_admin_status :: "string \<Rightarrow> bool" where
  "is_admin_status st = (st = ''administrator'' \<or> st = ''creator'')"

text \<open>\<^verbatim>\<open>x or ''\<close> and \<^verbatim>\<open>target.username or f"{first} {last}".strip()\<close>.\<close>

definition or_empty :: "string option \<Rightarrow> string" where
  "or_empty v = (case v of None \<Rightarrow> [] | Some x \<Rightarrow> x)"

definition display_name :: "tg_user \<Rightarrow> string" where
  "display_name u =
     (if or_empty (u_username u) \<noteq> [] then or_empty (u_username u)
      else strip (or_empty (u_first_name u) @ '' '' @ or_empty (u_last_name u)))"

text \<open>\<^verbatim>\<open>val / rate if rate != 0 else 0.0\<close>, the expression of lines 300, 404 and 417.\<close>

definition to_usdt :: "pyfloat \<Rightarrow> pyfloat \<Rightarrow> halt + pyfloat" where
  "to_usdt val rate = (if rate \<noteq> Fin 0 then truediv val rate else Inr (Fin 0))"

text \<open>The tail shared by the three places that create an entry: the rate, the
  conversion and \<^verbatim>\<open>add_entry\<close>. The result is the second amount, or the exception
  of the division, and the database.\<close>

definition convert_and_add ::
  "int \<Rightarrow> string \<Rightarrow> pyfloat \<Rightarrow> string \<Rightarrow> db \<Rightarrow> (halt + pyfloat) \<times> db" where
  "convert_and_add uid name val now s =
     (let rs = get_rate s
      in case to_usdt val (fst rs) of
           Inl h \<Rightarrow> (Inl h, snd rs)
         | Inr usdt \<Rightarrow> (Inr usdt, snd (add_entry uid name val usdt now (snd rs))))"

text \<open>\<^verbatim>\<open>message_handler\<close> from line 295 on: the entry, the confirmation and the
  report.\<close>

definition record_payment ::
  "message \<Rightarrow> tg_user \<Rightarrow> pyfloat \<Rightarrow> string \<Rightarrow> db \<Rightarrow> db \<times> reply list" where
  "record_payment msg target val now s =
     (case convert_and_add (u_id target) (display_name target) val now s of
        (Inl h, s1) \<Rightarrow> (s1, [Uncaught h])
      | (Inr usdt, s1) \<Rightarrow>
          (let conv = Recorded (if or_empty (u_first_name (m_from msg)) \<noteq> []
                                then u_first_name (m_from msg) else u_username (m_from msg))
                        (display_name target) val usdt
           in case build_report 10 s1 of
                Inl h \<Rightarrow> (s1, [conv, Uncaught h])
              | Inr r \<Rightarrow> (snd r, [conv, ReportText (fst r)])))"

definition message_handler ::
  "message option \<Rightarrow> string option \<Rightarrow> string \<Rightarrow> db \<Rightarrow> db \<times> reply list" where
  "message_handler upd status now s =
     (case upd of
        None \<Rightarrow> (s, [])
      | Some msg \<Rightarrow>
          if or_empty (m_text msg) = [] then (s, [])
          else case m_reply_to msg of
            None \<Rightarrow> (s, [])
          | Some target \<Rightarrow>
              case re_match (strip (or_empty (m_text msg))) of
                None \<Rightarrow> (s, [])
              | Some tok \<Rightarrow>
                  case status of
                    None \<Rightarrow> (s, [PermissionFailedRecord])
                  | Some st \<Rightarrow>
                      if \<not> is_admin_status st then (s, [OnlyAdminsRecord])
                      else case parse_signed_token tok of
                        None \<Rightarrow> (s, [])
                      | Some val \<Rightarrow>
                          if f_lt (f_abs val) (Fin (1 / 100000)) then (s, [])
                          else record_payment msg target val now s)"

definition rate_cmd :: "string option \<Rightarrow> string list \<Rightarrow> db \<Rightarrow> db \<times> reply list" where
  "rate_cmd status args s =
     (case status of
        None \<Rightarrow> (s, [PermissionFailed])
      | Some st \<Rightarrow>
          if \<not> is_admin_status st then (s, [OnlyAdminsRate])
          else
            (case args of
               [] \<Rightarrow> (snd (get_rate s), [CurrentRate (fst (get_rate s))])
             | a # _ \<Rightarrow>
                 (case py_float a of
                    None \<Rightarrow> (s, [ProvideValidRate])
                  | Some r \<Rightarrow>
                      if f_le r (Fin 0) then (s, [ProvideValidRate])
                      else (set_rate r s, [RateUpdated r]))))"

definition summary_cmd :: "db \<Rightarrow> db \<times> reply list" where
  "summary_cmd s =
     (case build_report 12 s of
        Inl h \<Rightarrow> (s, [Uncaught h])
      | Inr r \<Rightarrow> (snd r, [ReportText (fst r)]))"

text \<open>The end of the two branches of \<^verbatim>\<open>add_cmd\<close> that create an entry.\<close>

definition add_for :: "int \<Rightarrow> string \<Rightarrow> pyfloat \<Rightarrow> string \<Rightarrow> db \<Rightarrow> db \<times> reply list" where
  "add_for uid name val now s =
     (case convert_and_add uid name val now s of
        (Inl h, s1) \<Rightarrow> (s1, [Uncaught h])
      | (Inr usdt, s1) \<Rightarrow> (s1, [Added name val usdt]))"

definition add_cmd ::
  "string option \<Rightarrow> tg_user option \<Rightarrow> string list \<Rightarrow> string \<Rightarrow> db \<Rightarrow> db \<times> reply list"
  where
  "add_cmd status reply_to args now s =
     (case status of
        None \<Rightarrow> (s, [PermissionFailed])
      | Some st \<Rightarrow>
          if \<not> is_admin_status st then (s, [OnlyAdminsAdd])
          else if reply_to \<noteq> None \<and> length args = 1 then
            (case py_float (remove_commas (args ! 0)) of
               None \<Rightarrow> (s, [InvalidAmountReply])
             | Some val \<Rightarrow>
                 add_for (u_id (the reply_to)) (display_name (the reply_to)) val now s)
          else if length args = 2 then
            (case py_float (remove_commas (args ! 1)) of
               None \<Rightarrow> (s, [InvalidAmountUsage])
             | Some val \<Rightarrow> add_for 0 (args ! 0) val now s)
          else (s, [UsageAdd]))"

text \<open>\<^verbatim>\<open>undo_cmd\<close>: \<^verbatim>\<open>if not last\<close> holds for \<^verbatim>\<open>None\<close> and for the id 0.\<close>

definition undo_cmd :: "string option \<Rightarrow> db \<Rightarrow> db \<times> reply list" where
  "undo_cmd status s =
     (case status of
        None \<Rightarrow> (s, [PermissionFailed])
      | Some st \<Rightarrow>
          if \<not> is_admin_status st then (s, [OnlyAdminsUndo])
          else
            (case fst (delete_last_entry s) of
               None \<Rightarrow> (snd (delete_last_entry s), [NoEntriesToDelete])
             | Some i \<Rightarrow>
                 (snd (delete_last_entry s),
                  [if i = 0 then NoEntriesToDelete else LastEntryDeleted i])))"

text \<open>\<^verbatim>\<open>reset_callback\<close>, with the callback data and the status of the user who
  pressed the button. The report is built inside \<^verbatim>\<open>try\<close> with \<^verbatim>\<open>except: pass\<close>.\<close>

definition reset_callback :: "string \<Rightarrow> string option \<Rightarrow> db \<Rightarrow> db \<times> reply list" where
  "reset_callback cb_data status s =
     (if cb_data = ''reset_cancel'' then (s, [ResetCancelled])
      else
        (case status of
           None \<Rightarrow> (s, [ResetAborted])
         | Some st \<Rightarrow>
             if \<not> is_admin_status st then (s, [OnlyAdminsConfirm])
             else (case build_report 10 (reset_ledger s) of
                     Inl h \<Rightarrow> (reset_ledger s, [LedgerReset])
                   | Inr r \<Rightarrow> (snd r, [LedgerReset, ReportText (fst r)]))))"

subsection \<open>The program as a state machine\<close>

text \<open>
  The handlers that \<^verbatim>\<open>start_app\<close> registers and that write to the database, and the
  start of the program. \<^verbatim>\<open>ledger_cmd\<close>, \<^verbatim>\<open>myentries_cmd\<close>, \<^verbatim>\<open>export_cmd\<close> and
  \<^verbatim>\<open>reset_cmd\<close> run SELECT statements only. A handler that ends in an exception
  leaves the database as it was when the exception came.
\<close>

datatype event =
    Message "message option" "string option" string
  | RateCmd "string option" "string list"
  | SummaryCmd
  | AddCmd "string option" "tg_user option" "string list" string
  | UndoCmd "string option"
  | ResetCallback string "string option"
  | Restart

definition step :: "event \<Rightarrow> db \<Rightarrow> db" where
  "step ev s =
     (case ev of
        Message upd status now \<Rightarrow> fst (message_handler upd status now s)
      | RateCmd status args \<Rightarrow> fst (rate_cmd status args s)
      | SummaryCmd \<Rightarrow> fst (summary_cmd s)
      | AddCmd status reply_to args now \<Rightarrow> fst (add_cmd status reply_to args now s)
      | UndoCmd status \<Rightarrow> fst (undo_cmd status s)
      | ResetCallback cb_data status \<Rightarrow> fst (reset_callback cb_data status s)
      | Restart \<Rightarrow> init_db s)"

text \<open>The database after a list of events, from a new database.\<close>

definition run :: "event list \<Rightarrow> db" where
  "run evs = fold step evs (init_db empty_db)"

section \<open>The value of a token of the pattern\<close>

text \<open>The value of digits \<open>ds\<close> followed by nothing or by a point and digits, as
  \<^verbatim>\<open>float\<close> reads it.\<close>

definition plain_value :: "string \<Rightarrow> string \<Rightarrow> real" where
  "plain_value ds q =
     (case q of [] \<Rightarrow> real (digits_val ds)
      | _ # fs \<Rightarrow> real (digits_val ds) + real (digits_val fs) / 10 ^ length fs)"

section \<open>The key of the table and example ledgers\<close>

text \<open>\<^verbatim>\<open>id INTEGER PRIMARY KEY\<close>: SQLite keeps the ids of the table distinct.\<close>

definition primary_key :: "db \<Rightarrow> bool" where
  "primary_key s = distinct (map eid (entries s))"

text \<open>A ledger for the examples: Alice with 1000, then Bob with 50, at the rate 100.\<close>

definition ledger_alice_bob :: db where
  "ledger_alice_bob =
     \<lparr>entries =
        [\<lparr>eid = 1, user_id = 11, username = ''Alice'', amount_inr = SqlReal 1000,
          amount_usdt = SqlReal 10, ts = ''2024-01-01T10:00:00+00:00''\<rparr>,
         \<lparr>eid = 2, user_id = 12, username = ''Bob'', amount_inr = SqlReal 50,
          amount_usdt = SqlReal (1 / 2), ts = ''2024-01-01T10:05:00+00:00''\<rparr>],
      seq = 2,
      meta = [''rate'' \<mapsto> FloatText (Fin 100)]\<rparr>"

text \<open>A ledger where Alice and Carol have two entries each, those of Alice under two
  user ids, and Bob, whose total is the smallest, has the most recent entry.\<close>

definition ledger_four_users :: db where
  "ledger_four_users =
     \<lparr>entries =
        [\<lparr>eid = 1, user_id = 11, username = ''Alice'', amount_inr = SqlReal 1000,
          amount_usdt = SqlReal 10, ts = ''2024-01-01T10:00:00+00:00''\<rparr>,
         \<lparr>eid = 2, user_id = 14, username = ''Dan'', amount_inr = SqlReal 650,
          amount_usdt = SqlReal (13 / 2), ts = ''2024-01-01T10:01:00+00:00''\<rparr>,
         \<lparr>eid = 3, user_id = 13, username = ''Carol'', amount_inr = SqlReal 2000,
          amount_usdt = SqlReal 20, ts = ''2024-01-01T10:02:00+00:00''\<rparr>,
         \<lparr>eid = 4, user_id = 0, username = ''Alice'', amount_inr = SqlReal (- 400),
          amount_usdt = SqlReal (- 4), ts = ''2024-01-01T10:03:00+00:00''\<rparr>,
         \<lparr>eid = 5, user_id = 13, username = ''Carol'', amount_inr = SqlReal (- 1300),
          amount_usdt = SqlReal (- 13), ts = ''2024-01-01T10:04:00+00:00''\<rparr>,
         \<lparr>eid = 6, user_id = 12, username = ''Bob'', amount_inr = SqlReal 50,
          amount_usdt = SqlReal (1 / 2), ts = ''2024-01-01T10:05:00+00:00''\<rparr>],
      seq = 6,
      meta = [''rate'' \<mapsto> FloatText (Fin 100)]\<rparr>"

text \<open>An administrator replies to a message of Bob with a signed number.\<close>

definition bob :: tg_user where
  "bob = \<lparr>u_id = 12, u_username = Some ''Bob'', u_first_name = Some ''Robert'',
          u_last_name = None\<rparr>"

definition admin_user :: tg_user where
  "admin_user = \<lparr>u_id = 1, u_username = None, u_first_name = Some ''Ann'',
                 u_last_name = Some ''Lee''\<rparr>"

definition reply_plus_1000 :: message where
  "reply_plus_1000 = \<lparr>m_text = Some ''  +1,000 '', m_reply_to = Some bob, m_from = admin_user\<rparr>"

definition reply_plus_5 :: message where
  "reply_plus_5 = \<lparr>m_text = Some ''+5'', m_reply_to = Some bob, m_from = admin_user\<rparr>"

text \<open>A database whose stored rate is not a number.\<close>

definition ledger_bad_rate :: db where
  "ledger_bad_rate = \<lparr>entries = [], seq = 0, meta = [''rate'' \<mapsto> OtherText ''abc'']\<rparr>"

section \<open>The sign of an amount\<close>

text \<open>\<open>sql_ge0\<close> and \<open>sql_le0\<close>: the stored amount is a number (or an infinity) that is
  at least 0, at most 0; NULL is neither. \<open>same_sign\<close>: the two amounts of an entry are
  both at least 0 or both at most 0.\<close>

fun sql_ge0 :: "sqlreal \<Rightarrow> bool" where
  "sql_ge0 (SqlReal x) = (0 \<le> x)"
| "sql_ge0 SqlPosInf = True"
| "sql_ge0 _ = False"

fun sql_le0 :: "sqlreal \<Rightarrow> bool" where
  "sql_le0 (SqlReal x) = (x \<le> 0)"
| "sql_le0 SqlNegInf = True"
| "sql_le0 _ = False"

definition same_sign :: "entry \<Rightarrow> bool" where
  "same_sign e =
     ((sql_ge0 (amount_inr e) \<and> sql_ge0 (amount_usdt e))
      \<or> (sql_le0 (amount_inr e) \<and> sql_le0 (amount_usdt e)))"


section \<open>Sums in closed form\<close>

text \<open>
  The sum of the values of a column, written with \<open>sum_list\<close> over the numbers among
  them: as a float (\<open>float_total\<close>) and as SQL returns it (\<open>column_total\<close>). An
  infinity among the values is the sum, both infinities give NaN, which SQL returns as
  NULL, and so does a column with no value other than NULL.
\<close>

definition float_total :: "sqlreal list \<Rightarrow> pyfloat" where
  "float_total vs =
     (if SqlPosInf \<in> set vs then (if SqlNegInf \<in> set vs then NaN else PInf)
      else if SqlNegInf \<in> set vs then NInf
      else Fin (sum_list [x. SqlReal x \<leftarrow> vs]))"

definition column_total :: "sqlreal list \<Rightarrow> sqlreal" where
  "column_total vs =
     (if SqlPosInf \<in> set vs then (if SqlNegInf \<in> set vs then SqlNull else SqlPosInf)
      else if SqlNegInf \<in> set vs then SqlNegInf
      else if [x. SqlReal x \<leftarrow> vs] = [] then SqlNull
      else SqlReal (sum_list [x. SqlReal x \<leftarrow> vs]))"


section \<open>Evaluation\<close>

text \<open>The equations that evaluate \<^verbatim>\<open>float\<close> and the pattern on a given string.\<close>

lemmas float_eval =
  parse_signed_token_def remove_commas_def py_float_def float_strip_def float_space_def
  absfloatvalue_def lower_def floatnumber_def is_e_def mantissa_def exponent_def signed_digits_def
  is_digit_def number_val_def digits_val_def digit_val_def scale10_def

lemmas match_eval =
  re_match_def strip_def is_space_def alt_grouped_def alt_plain_def sign_char_def is_digit_def
  frac_opt_def or_empty_def

lemma init_db_empty:
  "init_db empty_db = \<lparr>entries = [], seq = 0, meta = [''rate'' \<mapsto> FloatText (Fin (187 / 2))]\<rparr>"
  by (simp add: init_db_def empty_db_def set_rate_def DEFAULT_RATE_def)

lemma get_rate_init:
  "get_rate (init_db empty_db) = (Fin (187 / 2), init_db empty_db)"
  by (simp add: init_db_empty get_rate_def)

lemma next_id_init: "next_id (init_db empty_db) = 1"
  by (simp add: init_db_empty next_id_def max_id_def)

section \<open>Properties of the store\<close>

subsection \<open>Identifiers\<close>

lemma fold_max_Max: "fold max xs (a::nat) = Max (set (a # xs))"
  by (rule Max.set_eq_fold [symmetric])

lemma max_id_Nil [simp]: "max_id [] = None"
  by (simp add: max_id_def)

lemma max_id_Some: "es \<noteq> [] \<Longrightarrow> max_id es = Some (Max (eid ` set es))"
  by (cases es) (simp_all add: max_id_def fold_max_Max)

lemma eid_less_next_id:
  assumes "e \<in> set (entries s)"
  shows "eid e < next_id s"
proof -
  from assms have "entries s \<noteq> []" by auto
  moreover from assms have "eid e \<le> Max (eid ` set (entries s))" by simp
  ultimately show ?thesis by (simp add: next_id_def max_id_Some)
qed

lemma max_id_snoc:
  assumes "\<forall>e \<in> set es. eid e < eid r"
  shows "max_id (es @ [r]) = Some (eid r)"
proof -
  have "Max (eid ` set (es @ [r])) = eid r"
    using assms by (intro Max_eqI) (auto simp: less_imp_le)
  then show ?thesis by (simp add: max_id_Some)
qed

lemma update_usdt_of_max_snoc:
  assumes "\<forall>e \<in> set es. eid e < eid r"
  shows "update_usdt_of_max u (es @ [r]) = es @ [r\<lparr>amount_usdt := u\<rparr>]"
  using assms by (auto simp: update_usdt_of_max_def max_id_snoc intro!: map_idI)

subsection \<open>\<^verbatim>\<open>add_entry\<close>\<close>

lemma add_entry_appends:
  "add_entry uid name a u now s =
     (next_id s,
      s\<lparr>entries := entries s @ [\<lparr>eid = next_id s, user_id = uid, username = name,
                                 amount_inr = bind_real a, amount_usdt = bind_real u,
                                 ts = now\<rparr>],
        seq := next_id s\<rparr>)"
  by (simp add: add_entry_def Let_def update_usdt_of_max_snoc eid_less_next_id)

lemma fetch_bind_real: "fetch_real (bind_real u) = (if u = NaN then None else Some u)"
  by (cases u) simp_all

text \<open>
  Claim C2. \<^verbatim>\<open>add_entry\<close> appends one row, and after its two writes that row holds
  what SQLite makes of the \<^verbatim>\<open>amount_usdt\<close> the caller passed: the UPDATE reaches the
  row with the largest id, which is the row just inserted, and overwrites what the
  INSERT computed from \<^verbatim>\<open>amount_inr and amount_usdt or 0.0\<close>. A number or an infinity
  is stored as it is, also next to an \<^verbatim>\<open>amount_inr\<close> of 0; NaN is stored as NULL.
  The command \<^verbatim>\<open>/add Bob nan\<close> of an administrator calls
  \<^verbatim>\<open>add_entry(0, 'Bob', nan, nan)\<close>: the row then holds NULL in both columns, which
  Python reads back as \<^verbatim>\<open>None\<close>, not as the value passed. So does the reply \<^verbatim>\<open>+5\<close>
  at the rate NaN, which calls \<^verbatim>\<open>add_entry(12, 'Bob', 5.0, nan)\<close>: the row holds 5
  and NULL.
\<close>

theorem add_entry_stores_null_for_nan:
  "add_entry uid name a u now s =
     (next_id s,
      s\<lparr>entries := entries s @ [\<lparr>eid = next_id s, user_id = uid, username = name,
                                 amount_inr = bind_real a, amount_usdt = bind_real u,
                                 ts = now\<rparr>],
        seq := next_id s\<rparr>)
   \<and> fetch_real (bind_real u) = (if u = NaN then None else Some u)
   \<and> py_float (remove_commas ''nan'') = Some NaN
   \<and> entries (fst (add_cmd (Some ''administrator'') None [''Bob'', ''nan'']
                       ''2024-01-01T10:00:00+00:00'' (init_db empty_db)))
       = [\<lparr>eid = 1, user_id = 0, username = ''Bob'', amount_inr = SqlNull,
           amount_usdt = SqlNull, ts = ''2024-01-01T10:00:00+00:00''\<rparr>]
   \<and> map fetch_real
         (map amount_usdt
            (entries (snd (add_entry 0 ''Bob'' NaN NaN ''2024-01-01T10:00:00+00:00''
                             (init_db empty_db)))))
       = [None]
   \<and> map (\<lambda>e. (amount_inr e, amount_usdt e))
         (entries (snd (add_entry 12 ''Bob'' (Fin 5) NaN ''2024-01-01T10:10:00+00:00''
                          (set_rate NaN (init_db empty_db)))))
       = [(SqlReal 5, SqlNull)]"
proof -
  have p: "py_float (remove_commas ''nan'') = Some NaN"
    by (simp add: float_eval)
  have u: "to_usdt NaN (Fin (187 / 2)) = Inr NaN"
    by (simp add: to_usdt_def truediv_def)
  have c: "entries (fst (add_cmd (Some ''administrator'') None [''Bob'', ''nan'']
                       ''2024-01-01T10:00:00+00:00'' (init_db empty_db)))
       = [\<lparr>eid = 1, user_id = 0, username = ''Bob'', amount_inr = SqlNull,
           amount_usdt = SqlNull, ts = ''2024-01-01T10:00:00+00:00''\<rparr>]"
    by (simp add: add_cmd_def is_admin_status_def p add_for_def convert_and_add_def
        get_rate_init u add_entry_appends next_id_init)
      (simp add: init_db_empty)
  have e: "map fetch_real
         (map amount_usdt
            (entries (snd (add_entry 0 ''Bob'' NaN NaN ''2024-01-01T10:00:00+00:00''
                             (init_db empty_db)))))
       = [None]"
    by (simp add: add_entry_appends) (simp add: init_db_empty)
  have r: "map (\<lambda>e. (amount_inr e, amount_usdt e))
         (entries (snd (add_entry 12 ''Bob'' (Fin 5) NaN ''2024-01-01T10:10:00+00:00''
                          (set_rate NaN (init_db empty_db)))))
       = [(SqlReal 5, SqlNull)]"
    by (simp add: add_entry_appends) (simp add: init_db_empty set_rate_def)
  show ?thesis
    using p c e r by (simp add: add_entry_appends fetch_bind_real)
qed

subsection \<open>\<^verbatim>\<open>reset_ledger\<close>\<close>

text \<open>
  Claim C9. After \<^verbatim>\<open>reset_ledger\<close> the table of entries is empty, so
  \<^verbatim>\<open>get_last_entries\<close> returns no row for any limit, and the table \<^verbatim>\<open>meta\<close>, with
  the stored rate, is what it was: \<^verbatim>\<open>get_rate\<close> returns the same rate as before.
\<close>

theorem reset_ledger_empties_entries_keeps_rate:
  "entries (reset_ledger s) = []
   \<and> get_last_entries limit (reset_ledger s) = []
   \<and> meta (reset_ledger s) = meta s
   \<and> fst (get_rate (reset_ledger s)) = fst (get_rate s)"
  by (simp add: reset_ledger_def get_last_entries_def order_by_id_desc_def sql_limit_def
      get_rate_def split: option.split meta_text.split)

subsection \<open>\<^verbatim>\<open>delete_last_entry\<close>\<close>

lemma last_sorted_Max:
  assumes "xs \<noteq> []" and "sorted (map f xs)"
  shows "f (last xs) = Max (f ` set xs)"
proof -
  obtain ys y where xs: "xs = ys @ [y]"
    using assms(1) by (metis append_butlast_last_id)
  have "\<forall>x \<in> set ys. f x \<le> f y"
    using assms(2) unfolding xs by (simp add: sorted_append)
  then have "Max (f ` set xs) = f y"
    unfolding xs by (intro Max_eqI) auto
  then show ?thesis by (simp add: xs)
qed

lemma hd_order_by_id_desc:
  assumes "es \<noteq> []"
  shows "eid (hd (order_by_id_desc es)) = Max (eid ` set es)"
proof -
  have ne: "sort_key eid es \<noteq> []"
    using assms by (metis length_sort length_0_conv)
  then have "eid (last (sort_key eid es)) = Max (eid ` set (sort_key eid es))"
    by (intro last_sorted_Max) simp_all
  then show ?thesis
    using ne by (simp add: order_by_id_desc_def hd_rev)
qed

lemma order_by_id_desc_Nil_iff [simp]: "order_by_id_desc es = [] \<longleftrightarrow> es = []"
  by (metis length_0_conv length_rev length_sort order_by_id_desc_def)

lemma set_order_by_id_desc [simp]: "set (order_by_id_desc es) = set es"
  by (simp add: order_by_id_desc_def)

lemma delete_last_entry_empty: "entries s = [] \<Longrightarrow> delete_last_entry s = (None, s)"
  by (simp add: delete_last_entry_def order_by_id_desc_def sql_limit_def)

lemma delete_last_entry_nonempty:
  assumes "entries s \<noteq> []"
  shows "delete_last_entry s =
    (Some (Max (eid ` set (entries s))),
     s\<lparr>entries := filter (\<lambda>e. eid e \<noteq> Max (eid ` set (entries s))) (entries s)\<rparr>)"
proof -
  obtain r rs where o: "order_by_id_desc (entries s) = r # rs"
    using assms by (cases "order_by_id_desc (entries s)") auto
  have "eid r = Max (eid ` set (entries s))"
    using hd_order_by_id_desc [OF assms] by (simp add: o)
  then show ?thesis by (simp add: delete_last_entry_def sql_limit_def o)
qed

lemma length_filter_neq_distinct:
  assumes "distinct (map f xs)" and "x \<in> set xs"
  shows "Suc (length (filter (\<lambda>e. f e \<noteq> f x) xs)) = length xs"
  using assms
proof (induction xs)
  case Nil
  then show ?case by simp
next
  case (Cons a xs)
  show ?case
  proof (cases "a = x")
    case True
    have "f x \<notin> f ` set xs"
      using Cons.prems(1) True by simp
    then have "\<forall>e \<in> set xs. f e \<noteq> f x"
      by (metis imageI)
    then have "filter (\<lambda>e. f e \<noteq> f x) xs = xs"
      by simp
    then show ?thesis using True by simp
  next
    case False
    then have "x \<in> set xs" using Cons.prems by auto
    moreover have "f a \<noteq> f x" using Cons.prems(1) \<open>x \<in> set xs\<close> by auto
    ultimately show ?thesis using Cons by simp
  qed
qed

text \<open>
  Claim C8. On a table with distinct ids (the primary key) that is not empty,
  \<^verbatim>\<open>delete_last_entry\<close> returns the largest id and deletes the rows with that id and
  no other: the table is one row shorter, and \<^verbatim>\<open>get_last_entries\<close> afterwards, for
  the limit 1 as for any limit, does not return the deleted id. On the empty table it
  returns \<^verbatim>\<open>None\<close> and leaves the database as it is, also when called again.
\<close>

theorem delete_last_entry_removes_max_id:
  assumes "primary_key s"
  shows "(entries s = [] \<longrightarrow>
            delete_last_entry s = (None, s)
            \<and> delete_last_entry (snd (delete_last_entry s)) = (None, s))
       \<and> (entries s \<noteq> [] \<longrightarrow>
            fst (delete_last_entry s) = Some (Max (eid ` set (entries s)))
            \<and> snd (delete_last_entry s) =
                s\<lparr>entries := filter (\<lambda>e. eid e \<noteq> Max (eid ` set (entries s))) (entries s)\<rparr>
            \<and> Suc (length (entries (snd (delete_last_entry s)))) = length (entries s)
            \<and> Max (eid ` set (entries s))
                \<notin> fst ` set (get_last_entries limit (snd (delete_last_entry s))))"
proof (cases "entries s = []")
  case True
  then show ?thesis by (simp add: delete_last_entry_empty)
next
  case False
  let ?m = "Max (eid ` set (entries s))"
  let ?s' = "s\<lparr>entries := filter (\<lambda>e. eid e \<noteq> ?m) (entries s)\<rparr>"
  have "?m \<in> eid ` set (entries s)"
    using False by (intro Max_in) auto
  then obtain x where x: "x \<in> set (entries s)" "eid x = ?m"
    by auto
  have len: "Suc (length (filter (\<lambda>e. eid e \<noteq> ?m) (entries s))) = length (entries s)"
    using length_filter_neq_distinct [of eid "entries s" x] assms x
    by (simp add: primary_key_def)
  have notin: "?m \<notin> fst ` set (get_last_entries limit ?s')"
  proof
    assume "?m \<in> fst ` set (get_last_entries limit ?s')"
    then obtain e
      where "e \<in> set (sql_limit limit (order_by_id_desc (filter (\<lambda>e. eid e \<noteq> ?m) (entries s))))"
        and "eid e = ?m"
      by (auto simp: get_last_entries_def recent_cols_def)
    then have "e \<in> set (filter (\<lambda>e. eid e \<noteq> ?m) (entries s))"
      by (auto simp: sql_limit_def split: if_splits dest: in_set_takeD)
    then show False using \<open>eid e = ?m\<close> by simp
  qed
  show ?thesis
    using False len notin by (simp add: delete_last_entry_nonempty)
qed

theorem delete_last_entry_removes_max_id_witness:
  "primary_key ledger_alice_bob \<and> entries ledger_alice_bob \<noteq> []
   \<and> fst (delete_last_entry ledger_alice_bob) = Some 2
   \<and> map eid (entries (snd (delete_last_entry ledger_alice_bob))) = [1]
   \<and> primary_key (reset_ledger ledger_alice_bob)
   \<and> delete_last_entry (reset_ledger ledger_alice_bob) = (None, reset_ledger ledger_alice_bob)"
  using delete_last_entry_removes_max_id [of ledger_alice_bob 1]
    delete_last_entry_removes_max_id [of "reset_ledger ledger_alice_bob" 1]
  by (simp add: primary_key_def ledger_alice_bob_def reset_ledger_def)


section \<open>Properties of the report\<close>

subsection \<open>\<^verbatim>\<open>SUM\<close> in closed form\<close>

lemma f_add_assoc: "f_add (f_add a b) c = f_add a (f_add b c)"
  by (cases a; cases b; cases c) simp_all

lemma f_add_zero: "f_add (Fin 0) t = t"
  by (cases t) simp_all

lemma float_total_Cons:
  "float_total (v # vs) =
     (case fetch_real v of None \<Rightarrow> float_total vs | Some x \<Rightarrow> f_add x (float_total vs))"
  by (cases v) (auto simp: float_total_def)

lemma foldl_f_add:
  "foldl f_add acc (List.map_filter fetch_real vs) = f_add acc (float_total vs)"
proof (induction vs arbitrary: acc)
  case Nil
  then show ?case by (cases acc) (simp_all add: float_total_def List.map_filter_simps)
next
  case (Cons v vs)
  then show ?case
    by (cases "fetch_real v") (simp_all add: List.map_filter_simps float_total_Cons f_add_assoc)
qed

lemma map_filter_fetch_Nil:
  "List.map_filter fetch_real vs = [] \<longleftrightarrow>
     SqlPosInf \<notin> set vs \<and> SqlNegInf \<notin> set vs \<and> [x. SqlReal x \<leftarrow> vs] = []"
proof (induction vs)
  case Nil
  then show ?case by (simp add: List.map_filter_simps)
next
  case (Cons v vs)
  then show ?case by (cases v) (auto simp: List.map_filter_simps)
qed

lemma sql_sum_column_total: "sql_sum vs = column_total vs"
proof (cases "List.map_filter fetch_real vs")
  case Nil
  then show ?thesis
    using map_filter_fetch_Nil [of vs] by (simp add: sql_sum_def column_total_def)
next
  case (Cons x xs)
  then have "sql_sum vs = bind_real (foldl f_add (Fin 0) (List.map_filter fetch_real vs))"
    by (simp add: sql_sum_def)
  also have "\<dots> = bind_real (float_total vs)"
    by (simp only: foldl_f_add f_add_zero)
  finally show ?thesis
    using map_filter_fetch_Nil [of vs] Cons by (auto simp: column_total_def float_total_def)
qed

lemma column_total_numbers:
  "column_total (map SqlReal xs) = (if xs = [] then SqlNull else SqlReal (sum_list xs))"
proof -
  have "[x. SqlReal x \<leftarrow> map SqlReal xs] = xs"
    by (induction xs) simp_all
  moreover have "SqlPosInf \<notin> set (map SqlReal xs)" "SqlNegInf \<notin> set (map SqlReal xs)"
    by auto
  ultimately show ?thesis by (simp add: column_total_def)
qed

subsection \<open>The totals block\<close>

lemma or_zero_cases:
  "or_zero (if p then (if q then SqlNull else SqlPosInf)
            else if q then SqlNegInf else if e then SqlNull else SqlReal x) =
     (if p then (if q then Fin 0 else PInf) else if q then NInf else Fin (if e then 0 else x))"
  by (simp add: or_zero_def truthy_def)

lemma sum_list_if_Nil: "(if xs = [] then 0 else sum_list xs) = (sum_list xs :: real)"
  by (cases xs) simp_all

lemma or_zero_column_total:
  "or_zero (column_total vs) =
     (if SqlPosInf \<in> set vs then (if SqlNegInf \<in> set vs then Fin 0 else PInf)
      else if SqlNegInf \<in> set vs then NInf
      else Fin (sum_list [x. SqlReal x \<leftarrow> vs]))"
  by (simp only: column_total_def or_zero_cases sum_list_if_Nil)

lemma positive_part:
  "SqlPosInf \<in> set (map (\<lambda>v. if sql_gt0 v then v else SqlReal 0) vs) \<longleftrightarrow> SqlPosInf \<in> set vs"
  "SqlNegInf \<notin> set (map (\<lambda>v. if sql_gt0 v then v else SqlReal 0) vs)"
  "sum_list [x. SqlReal x \<leftarrow> map (\<lambda>v. if sql_gt0 v then v else SqlReal 0) vs]
     = sum_list [x. SqlReal x \<leftarrow> vs, 0 \<le> x]"
proof -
  show "SqlPosInf \<in> set (map (\<lambda>v. if sql_gt0 v then v else SqlReal 0) vs) \<longleftrightarrow> SqlPosInf \<in> set vs"
    by (induction vs) auto
  show "SqlNegInf \<notin> set (map (\<lambda>v. if sql_gt0 v then v else SqlReal 0) vs)"
    by (induction vs) auto
  show "sum_list [x. SqlReal x \<leftarrow> map (\<lambda>v. if sql_gt0 v then v else SqlReal 0) vs]
     = sum_list [x. SqlReal x \<leftarrow> vs, 0 \<le> x]"
  proof (induction vs)
    case Nil
    then show ?case by simp
  next
    case (Cons v vs)
    then show ?case by (cases v) auto
  qed
qed

lemma negative_part:
  "SqlNegInf \<in> set (map (\<lambda>v. if sql_lt0 v then v else SqlReal 0) vs) \<longleftrightarrow> SqlNegInf \<in> set vs"
  "SqlPosInf \<notin> set (map (\<lambda>v. if sql_lt0 v then v else SqlReal 0) vs)"
  "sum_list [x. SqlReal x \<leftarrow> map (\<lambda>v. if sql_lt0 v then v else SqlReal 0) vs]
     = sum_list [x. SqlReal x \<leftarrow> vs, x < 0]"
proof -
  show "SqlNegInf \<in> set (map (\<lambda>v. if sql_lt0 v then v else SqlReal 0) vs) \<longleftrightarrow> SqlNegInf \<in> set vs"
    by (induction vs) auto
  show "SqlPosInf \<notin> set (map (\<lambda>v. if sql_lt0 v then v else SqlReal 0) vs)"
    by (induction vs) auto
  show "sum_list [x. SqlReal x \<leftarrow> map (\<lambda>v. if sql_lt0 v then v else SqlReal 0) vs]
     = sum_list [x. SqlReal x \<leftarrow> vs, x < 0]"
  proof (induction vs)
    case Nil
    then show ?case by simp
  next
    case (Cons v vs)
    then show ?case by (cases v) auto
  qed
qed

lemma gross_of_column:
  "or_zero (sql_sum (map (\<lambda>e. if sql_gt0 (col e) then col e else SqlReal 0) es)) =
     (if SqlPosInf \<in> set (map col es) then PInf
      else Fin (sum_list [x. SqlReal x \<leftarrow> map col es, 0 \<le> x]))"
proof -
  have "map (\<lambda>e. if sql_gt0 (col e) then col e else SqlReal 0) es
          = map (\<lambda>v. if sql_gt0 v then v else SqlReal 0) (map col es)"
    by simp
  then show ?thesis
    by (simp only: sql_sum_column_total or_zero_column_total positive_part if_False)
qed

lemma refunded_of_column:
  "f_neg (or_zero (sql_sum (map (\<lambda>e. if sql_lt0 (col e) then col e else SqlReal 0) es))) =
     (if SqlNegInf \<in> set (map col es) then PInf
      else Fin (- sum_list [x. SqlReal x \<leftarrow> map col es, x < 0]))"
proof -
  have "map (\<lambda>e. if sql_lt0 (col e) then col e else SqlReal 0) es
          = map (\<lambda>v. if sql_lt0 v then v else SqlReal 0) (map col es)"
    by simp
  then have "or_zero (sql_sum (map (\<lambda>e. if sql_lt0 (col e) then col e else SqlReal 0) es)) =
     (if SqlNegInf \<in> set (map col es) then NInf
      else Fin (sum_list [x. SqlReal x \<leftarrow> map col es, x < 0]))"
    by (simp only: sql_sum_column_total or_zero_column_total negative_part if_False)
  then show ?thesis by simp
qed

lemma sum_negatives_nonpos: "sum_list [x. SqlReal x \<leftarrow> vs, x < 0] \<le> (0::real)"
proof (induction vs)
  case Nil
  then show ?case by simp
next
  case (Cons v vs)
  then show ?case by (cases v) auto
qed

lemma report_fields:
  "r_gross_inr (report_of n s) = or_zero (fst (totals_query (entries s)))"
  "r_refunded_inr (report_of n s) = f_neg (or_zero (fst (snd (totals_query (entries s)))))"
  "r_gross_usdt (report_of n s) = or_zero (fst (snd (snd (totals_query (entries s)))))"
  "r_refunded_usdt (report_of n s)
     = f_neg (or_zero (snd (snd (snd (totals_query (entries s))))))"
  "r_net_inr (report_of n s)
     = f_sub (r_gross_inr (report_of n s)) (r_refunded_inr (report_of n s))"
  "r_net_usdt (report_of n s)
     = f_sub (r_gross_usdt (report_of n s)) (r_refunded_usdt (report_of n s))"
  by (simp_all add: report_of_def Let_def)

lemma gross_inr_sum:
  "r_gross_inr (report_of n s) =
     (if SqlPosInf \<in> set (map amount_inr (entries s)) then PInf
      else Fin (sum_list [x. SqlReal x \<leftarrow> map amount_inr (entries s), 0 \<le> x]))"
  by (simp only: report_fields totals_query_def fst_conv snd_conv gross_of_column)

lemma refunded_inr_sum:
  "r_refunded_inr (report_of n s) =
     (if SqlNegInf \<in> set (map amount_inr (entries s)) then PInf
      else Fin (- sum_list [x. SqlReal x \<leftarrow> map amount_inr (entries s), x < 0]))"
  by (simp only: report_fields totals_query_def fst_conv snd_conv refunded_of_column)

lemma gross_usdt_sum:
  "r_gross_usdt (report_of n s) =
     (if SqlPosInf \<in> set (map amount_usdt (entries s)) then PInf
      else Fin (sum_list [x. SqlReal x \<leftarrow> map amount_usdt (entries s), 0 \<le> x]))"
  by (simp only: report_fields totals_query_def fst_conv snd_conv gross_of_column)

lemma refunded_usdt_sum:
  "r_refunded_usdt (report_of n s) =
     (if SqlNegInf \<in> set (map amount_usdt (entries s)) then PInf
      else Fin (- sum_list [x. SqlReal x \<leftarrow> map amount_usdt (entries s), x < 0]))"
  by (simp only: report_fields totals_query_def fst_conv snd_conv refunded_of_column)

lemma refunded_nonneg:
  "f_le (Fin 0) (r_refunded_inr (report_of n s))"
  "f_le (Fin 0) (r_refunded_usdt (report_of n s))"
  unfolding refunded_inr_sum refunded_usdt_sum
  using sum_negatives_nonpos [of "map amount_inr (entries s)"]
    sum_negatives_nonpos [of "map amount_usdt (entries s)"]
  by simp_all

lemma build_report_returns:
  "\<not> recent_raises (get_last_entries n s) \<Longrightarrow>
     build_report n s = Inr (report_of n s, snd (get_rate s))"
  by (simp add: build_report_def)

lemma get_last_entries_empty: "entries s = [] \<Longrightarrow> get_last_entries n s = []"
  by (simp add: get_last_entries_def order_by_id_desc_def sql_limit_def)

lemma report_of_empty:
  assumes "entries s = []"
  shows "r_gross_inr (report_of n s) = Fin 0" "r_refunded_inr (report_of n s) = Fin 0"
    "r_net_inr (report_of n s) = Fin 0" "r_gross_usdt (report_of n s) = Fin 0"
    "r_refunded_usdt (report_of n s) = Fin 0" "r_net_usdt (report_of n s) = Fin 0"
proof -
  show g: "r_gross_inr (report_of n s) = Fin 0" "r_refunded_inr (report_of n s) = Fin 0"
    "r_gross_usdt (report_of n s) = Fin 0" "r_refunded_usdt (report_of n s) = Fin 0"
    by (simp_all add: gross_inr_sum refunded_inr_sum gross_usdt_sum refunded_usdt_sum assms)
  show "r_net_inr (report_of n s) = Fin 0" "r_net_usdt (report_of n s) = Fin 0"
    by (simp_all add: report_fields(5,6) g f_sub_def)
qed

text \<open>
  Claim C5. The totals that \<^verbatim>\<open>build_report\<close> computes (lines 177 to 193) are: the
  gross amount, which is the sum of the amounts that are not negative; the refunded
  amount, which is minus the sum of the negative amounts and is not negative itself; and
  the net amount, which is the gross minus the refunded amount, the exact difference of
  two numbers. So for \<^verbatim>\<open>amount_inr\<close>, and so for \<^verbatim>\<open>amount_usdt\<close> (split by its own
  sign). The sums run over the numbers in the column, whatever else it holds: NULL
  counts as nothing, and an infinity of the sign in question makes the total infinite.
  With no entry all six totals are zero and \<^verbatim>\<open>build_report\<close> returns the report, as
  it does whenever no recent entry holds NULL.
\<close>

theorem build_report_totals:
  "r_gross_inr (report_of n s) =
     (if SqlPosInf \<in> set (map amount_inr (entries s)) then PInf
      else Fin (sum_list [x. SqlReal x \<leftarrow> map amount_inr (entries s), 0 \<le> x]))
   \<and> r_refunded_inr (report_of n s) =
     (if SqlNegInf \<in> set (map amount_inr (entries s)) then PInf
      else Fin (- sum_list [x. SqlReal x \<leftarrow> map amount_inr (entries s), x < 0]))
   \<and> f_le (Fin 0) (r_refunded_inr (report_of n s))
   \<and> r_net_inr (report_of n s)
     = f_sub (r_gross_inr (report_of n s)) (r_refunded_inr (report_of n s))
   \<and> r_gross_usdt (report_of n s) =
     (if SqlPosInf \<in> set (map amount_usdt (entries s)) then PInf
      else Fin (sum_list [x. SqlReal x \<leftarrow> map amount_usdt (entries s), 0 \<le> x]))
   \<and> r_refunded_usdt (report_of n s) =
     (if SqlNegInf \<in> set (map amount_usdt (entries s)) then PInf
      else Fin (- sum_list [x. SqlReal x \<leftarrow> map amount_usdt (entries s), x < 0]))
   \<and> f_le (Fin 0) (r_refunded_usdt (report_of n s))
   \<and> r_net_usdt (report_of n s)
     = f_sub (r_gross_usdt (report_of n s)) (r_refunded_usdt (report_of n s))
   \<and> f_sub (Fin g) (Fin r) = Fin (g - r)
   \<and> f_le (Fin 0) (Fin r) = (0 \<le> r)
   \<and> (\<not> recent_raises (get_last_entries n s) \<longrightarrow>
        build_report n s = Inr (report_of n s, snd (get_rate s)))
   \<and> (entries s = [] \<longrightarrow>
        build_report n s = Inr (report_of n s, snd (get_rate s))
        \<and> r_gross_inr (report_of n s) = Fin 0 \<and> r_refunded_inr (report_of n s) = Fin 0
        \<and> r_net_inr (report_of n s) = Fin 0 \<and> r_gross_usdt (report_of n s) = Fin 0
        \<and> r_refunded_usdt (report_of n s) = Fin 0
        \<and> r_net_usdt (report_of n s) = Fin 0)"
proof -
  have ops: "f_sub (Fin g) (Fin r) = Fin (g - r)" "f_le (Fin 0) (Fin r) = (0 \<le> r)"
    by (simp_all add: f_sub_def)
  have empty: "build_report n s = Inr (report_of n s, snd (get_rate s))" if "entries s = []"
    using that by (simp add: build_report_def get_last_entries_empty recent_raises_def)
  show ?thesis
    using gross_inr_sum [of n s] refunded_inr_sum [of n s] gross_usdt_sum [of n s]
      refunded_usdt_sum [of n s] refunded_nonneg [of n s] report_fields(5,6) [of n s] ops
      build_report_returns [of n s] empty report_of_empty [of s n]
    by blast
qed


theorem build_report_totals_witness:
  "entries (init_db empty_db) = []
   \<and> build_report 10 (init_db empty_db) = Inr (report_of 10 (init_db empty_db), init_db empty_db)
   \<and> r_gross_inr (report_of 10 (init_db empty_db)) = Fin 0
   \<and> r_refunded_inr (report_of 10 (init_db empty_db)) = Fin 0
   \<and> r_net_inr (report_of 10 (init_db empty_db)) = Fin 0
   \<and> r_net_usdt (report_of 10 (init_db empty_db)) = Fin 0
   \<and> \<not> recent_raises (get_last_entries 10 ledger_four_users)
   \<and> build_report 10 ledger_four_users = Inr (report_of 10 ledger_four_users, ledger_four_users)
   \<and> r_gross_inr (report_of 10 ledger_four_users) = Fin 3700
   \<and> r_refunded_inr (report_of 10 ledger_four_users) = Fin 1700
   \<and> r_net_inr (report_of 10 ledger_four_users) = Fin 2000"
proof -
  have e: "entries (init_db empty_db) = []"
    by (simp add: init_db_empty)
  have g: "snd (get_rate (init_db empty_db)) = init_db empty_db"
    "snd (get_rate ledger_four_users) = ledger_four_users"
    by (simp add: get_rate_init) (simp add: get_rate_def ledger_four_users_def)
  have r: "\<not> recent_raises (get_last_entries 10 ledger_four_users)"
    by (simp add: recent_raises_def get_last_entries_def order_by_id_desc_def sql_limit_def
        recent_cols_def ledger_four_users_def)
  have a: "map amount_inr (entries ledger_four_users) =
             [SqlReal 1000, SqlReal 650, SqlReal 2000, SqlReal (- 400), SqlReal (- 1300),
              SqlReal 50]"
    by (simp add: ledger_four_users_def)
  show ?thesis
    using build_report_totals [where n = 10 and s = "init_db empty_db" and g = 0 and r = 0]
      build_report_totals [where n = 10 and s = ledger_four_users and g = 3700 and r = 1700]
    by (simp add: e g r a)
qed

subsection \<open>The per-user section\<close>

lemma reorder_step_pair:
  "reorder_step L r (found, acc) = (if fst r = L then (Some r, acc) else (found, acc @ [r]))"
  by (simp add: reorder_step_def)

lemma fold_reorder_step:
  "fold (reorder_step L) rows (found, acc) =
     ((case filter (\<lambda>r. fst r = L) rows of [] \<Rightarrow> found | x # xs \<Rightarrow> Some (last (x # xs))),
      acc @ filter (\<lambda>r. fst r \<noteq> L) rows)"
proof (induction rows arbitrary: found acc)
  case Nil
  then show ?case by simp
next
  case (Cons r rows)
  show ?case
  proof (cases "fst r = L")
    case True
    then show ?thesis
      by (simp add: Cons.IH reorder_step_pair split: list.split)
  next
    case False
    then show ?thesis
      by (simp add: Cons.IH reorder_step_pair)
  qed
qed

lemma filter_eq_single:
  assumes "distinct (map f xs)" and "x \<in> set xs"
  shows "filter (\<lambda>y. f y = f x) xs = [x]"
  using assms
proof (induction xs)
  case Nil
  then show ?case by simp
next
  case (Cons a xs)
  show ?case
  proof (cases "a = x")
    case True
    have "f x \<notin> f ` set xs" using Cons.prems(1) True by simp
    then have "\<forall>e \<in> set xs. f e \<noteq> f x" by (metis imageI)
    then have "filter (\<lambda>y. f y = f x) xs = []" by (simp add: filter_empty_conv)
    then show ?thesis using True by simp
  next
    case False
    then have "x \<in> set xs" using Cons.prems by auto
    moreover have "f a \<noteq> f x" using Cons.prems(1) \<open>x \<in> set xs\<close> by auto
    ultimately show ?thesis using Cons by simp
  qed
qed

lemma move_last_user_distinct:
  assumes "distinct (map fst rows)" and "row \<in> set rows"
  shows "move_last_user (fst row) rows = row # filter (\<lambda>r. fst r \<noteq> fst row) rows"
  using filter_eq_single [OF assms]
  by (simp add: move_last_user_def fold_reorder_step)

lemma map_fst_group_by_username:
  "map fst (group_by_username es) = sort (remdups (map username es))"
  by (simp add: group_by_username_def comp_def)

lemma set_group_by_username:
  "set (group_by_username es) =
     (\<lambda>name. (name, column_total (map amount_inr (filter (\<lambda>x. username x = name) es)),
               column_total (map amount_usdt (filter (\<lambda>x. username x = name) es))))
       ` username ` set es"
  by (simp add: group_by_username_def group_rows_def sql_sum_column_total)

lemma set_per_user_query: "set (per_user_query es) = set (group_by_username es)"
  by (simp add: per_user_query_def)

lemma names_per_user_query: "set (map fst (per_user_query es)) = username ` set es"
proof -
  have "set (map fst (per_user_query es)) = set (map fst (group_by_username es))"
    by (simp add: set_per_user_query)
  then show ?thesis
    by (simp add: map_fst_group_by_username)
qed

lemma totals_per_user_query:
  assumes "row \<in> set (per_user_query es)"
  shows "fst (snd row) = column_total (map amount_inr (filter (\<lambda>x. username x = fst row) es))"
    and "snd (snd row) = column_total (map amount_usdt (filter (\<lambda>x. username x = fst row) es))"
  using assms by (auto simp: set_per_user_query set_group_by_username)

lemma distinct_names_per_user_query: "distinct (map fst (per_user_query es))"
proof -
  have "distinct (map fst (group_by_username es))"
    by (simp add: map_fst_group_by_username)
  then have "distinct (group_by_username es) \<and> inj_on fst (set (group_by_username es))"
    by (simp add: distinct_map)
  then show ?thesis
    by (simp add: per_user_query_def distinct_map)
qed

lemma per_user_query_sorted:
  "sorted (map (\<lambda>row. desc_key (fst (snd row))) (per_user_query es))"
  by (simp add: per_user_query_def)

lemma per_user_query_descending:
  assumes "i < j" and "j < length (per_user_query es)"
    and "fst (snd (per_user_query es ! i)) = SqlReal x"
    and "fst (snd (per_user_query es ! j)) = SqlReal y"
  shows "y \<le> x"
proof -
  let ?ks = "map (\<lambda>row. desc_key (fst (snd row))) (per_user_query es)"
  have "?ks ! i \<le> ?ks ! j"
    using per_user_query_sorted [of es] assms(1,2) by (intro sorted_nth_mono) simp_all
  then show ?thesis
    using assms by simp
qed

lemma per_user_query_Nil_iff: "per_user_query es = [] \<longleftrightarrow> es = []"
proof -
  have "per_user_query es = [] \<longleftrightarrow> set (map fst (per_user_query es)) = {}"
    by simp
  then show ?thesis
    by (simp only: names_per_user_query image_is_empty set_empty)
qed

lemma most_recent_is_hd:
  assumes "primary_key s" and "e \<in> set (entries s)" and "\<forall>x \<in> set (entries s). eid x \<le> eid e"
  shows "hd (order_by_id_desc (entries s)) = e"
proof -
  have ne: "entries s \<noteq> []" using assms(2) by auto
  have "Max (eid ` set (entries s)) = eid e"
    using assms(2,3) by (intro Max_eqI) auto
  then have "eid (hd (order_by_id_desc (entries s))) = eid e"
    using hd_order_by_id_desc [OF ne] by simp
  moreover have "hd (order_by_id_desc (entries s)) \<in> set (entries s)"
    using ne by (metis hd_in_set order_by_id_desc_Nil_iff set_order_by_id_desc)
  moreover have "inj_on eid (set (entries s))"
    using assms(1) by (simp add: primary_key_def distinct_map)
  ultimately show ?thesis using assms(2) by (auto dest: inj_onD)
qed

lemma get_last_entries_first:
  assumes "entries s \<noteq> []" and "n \<noteq> 0"
  shows "\<exists>rest. get_last_entries n s = recent_cols (hd (order_by_id_desc (entries s))) # rest"
proof -
  obtain r rs where o: "order_by_id_desc (entries s) = r # rs"
    using assms(1) by (cases "order_by_id_desc (entries s)") auto
  show ?thesis
  proof (cases "n < 0")
    case True
    then show ?thesis by (simp add: get_last_entries_def sql_limit_def o)
  next
    case False
    then obtain k where "nat n = Suc k" using assms(2) by (cases "nat n") auto
    then show ?thesis using False by (simp add: get_last_entries_def sql_limit_def o)
  qed
qed

lemma shown_rows:
  "r_per_user (report_of n s) =
     (if per_user_query (entries s) \<noteq> [] then
        (case get_last_entries n s of
           [] \<Rightarrow> per_user_query (entries s)
         | first # _ \<Rightarrow>
             if fst (snd first) \<noteq> [] then move_last_user (fst (snd first)) (per_user_query (entries s))
             else per_user_query (entries s))
      else [])"
  by (simp add: report_of_def Let_def split: list.split)


lemma per_user_query_four_users:
  "per_user_query (entries ledger_four_users) =
     [(''Carol'', SqlReal 700, SqlReal 7), (''Dan'', SqlReal 650, SqlReal (13 / 2)),
      (''Alice'', SqlReal 600, SqlReal 6), (''Bob'', SqlReal 50, SqlReal (1 / 2))]"
  by (simp add: per_user_query_def group_by_username_def ledger_four_users_def group_rows_def
      sql_sum_def List.map_filter_def)



section \<open>Properties of the pattern and of \<^verbatim>\<open>float\<close>\<close>

lemma is_digit_cases:
  "is_digit c \<longleftrightarrow>
     c = CHR ''0'' \<or> c = CHR ''1'' \<or> c = CHR ''2'' \<or> c = CHR ''3'' \<or> c = CHR ''4''
     \<or> c = CHR ''5'' \<or> c = CHR ''6'' \<or> c = CHR ''7'' \<or> c = CHR ''8'' \<or> c = CHR ''9''"
  by (simp add: is_digit_def)

lemma digit_not_special:
  assumes "is_digit c"
  shows "c \<noteq> CHR '',''" "c \<noteq> CHR ''.''" "c \<noteq> CHR ''_''" "\<not> is_e c" "\<not> is_space c"
    "c \<noteq> CHR ''i''" "c \<noteq> CHR ''n''" "\<not> float_space c"
  using assms unfolding is_digit_cases is_e_def is_space_def float_space_def by auto

lemma sign_not_space: "sign_char c \<Longrightarrow> \<not> float_space c"
  by (auto simp: sign_char_def float_space_def)

lemma lower_digit: "is_digit c \<Longrightarrow> lower c = c"
  unfolding is_digit_cases by (elim disjE) (simp_all add: lower_def)

lemma remove_commas_digits: "list_all is_digit ds \<Longrightarrow> remove_commas ds = ds"
  by (induction ds) (simp_all add: remove_commas_def digit_not_special)

lemma remove_commas_append: "remove_commas (xs @ ys) = remove_commas xs @ remove_commas ys"
  by (simp add: remove_commas_def)

lemma frac_opt_cases:
  "frac_opt r \<longleftrightarrow> r = [] \<or> (\<exists>fs. r = CHR ''.'' # fs \<and> fs \<noteq> [] \<and> list_all is_digit fs)"
  by (cases r) (auto simp: frac_opt_def)

lemma remove_commas_frac:
  assumes "frac_opt r"
  shows "remove_commas r = r"
proof (cases r)
  case Nil
  then show ?thesis by (simp add: remove_commas_def)
next
  case (Cons d fs)
  then have "d = CHR ''.''" "list_all is_digit fs"
    using assms by (simp_all add: frac_opt_cases)
  then have "remove_commas (d # fs) = d # remove_commas fs"
    by (simp add: remove_commas_def)
  then show ?thesis
    using \<open>list_all is_digit fs\<close> by (simp add: Cons remove_commas_digits)
qed

lemma frac_opt_shape:
  assumes "frac_opt r"
  shows "\<exists>ds q. list_all is_digit ds \<and> frac_opt q \<and> remove_commas r = ds @ q"
proof -
  have "list_all is_digit [] \<and> frac_opt r \<and> remove_commas r = [] @ r"
    using assms by (simp add: remove_commas_frac)
  then show ?thesis by blast
qed

lemma comma_groups_shape:
  "comma_groups r \<Longrightarrow> \<exists>ds q. list_all is_digit ds \<and> frac_opt q \<and> remove_commas r = ds @ q"
proof (induction r rule: comma_groups.induct)
  case (1 x a b c r)
  show ?case
  proof (cases "x = CHR '',''")
    case True
    with 1 obtain ds q where "list_all is_digit ds" "frac_opt q" "remove_commas r = ds @ q"
      by auto
    moreover have "is_digit a" "is_digit b" "is_digit c" using "1.prems" True by auto
    ultimately have "list_all is_digit (a # b # c # ds) \<and> frac_opt q
        \<and> remove_commas (x # a # b # c # r) = (a # b # c # ds) @ q"
      using True by (simp add: remove_commas_def digit_not_special)
    then show ?thesis by blast
  next
    case False
    then have "frac_opt (x # a # b # c # r)" using "1.prems" by simp
    then show ?thesis by (rule frac_opt_shape)
  qed
qed (simp_all only: comma_groups.simps frac_opt_shape)

lemma takeWhile_digits_split:
  "list_all is_digit ds \<Longrightarrow> frac_opt q \<Longrightarrow>
     takeWhile (\<lambda>c. c \<noteq> CHR ''.'') (ds @ q) = ds \<and> dropWhile (\<lambda>c. c \<noteq> CHR ''.'') (ds @ q) = q"
  by (induction ds) (auto simp: frac_opt_cases digit_not_special)

lemma no_e_in_number:
  assumes "list_all is_digit ds" and "frac_opt q"
  shows "list_all (\<lambda>c. \<not> is_e c) (ds @ q)"
proof -
  have "\<not> is_e (CHR ''.'')" by (simp add: is_e_def)
  then show ?thesis
    using assms by (auto simp: frac_opt_cases list_all_iff digit_not_special)
qed

lemma takeWhile_all: "list_all P xs \<Longrightarrow> takeWhile P xs = xs \<and> dropWhile P xs = []"
  by (induction xs) auto

lemma digitpart_digits: "list_all is_digit ds \<Longrightarrow> ds \<noteq> [] \<Longrightarrow> digitpart ds"
  by (induction ds rule: digitpart.induct) (auto simp: digit_not_special)

lemma filter_digits: "list_all is_digit ds \<Longrightarrow> filter is_digit ds = ds"
  by (induction ds) auto

lemma mantissa_plain:
  assumes "list_all is_digit ds" and "ds \<noteq> []" and "frac_opt q"
  shows "mantissa (ds @ q) = Some (plain_value ds q)"
proof -
  have tw: "takeWhile (\<lambda>c. c \<noteq> CHR ''.'') (ds @ q) = ds"
    and dw: "dropWhile (\<lambda>c. c \<noteq> CHR ''.'') (ds @ q) = q"
    using takeWhile_digits_split [OF assms(1,3)] by blast+
  have dp: "digitpart ds" using assms(1,2) by (rule digitpart_digits)
  show ?thesis
  proof (cases q)
    case Nil
    then show ?thesis
      unfolding mantissa_def tw dw Let_def
      by (simp add: dp number_val_def filter_digits [OF assms(1)] plain_value_def)
  next
    case (Cons d fs)
    then have fs: "fs \<noteq> []" "list_all is_digit fs"
      using assms(3) by (auto simp: frac_opt_cases)
    have "digitpart fs" using fs(2,1) by (rule digitpart_digits)
    then show ?thesis
      unfolding mantissa_def tw dw Let_def
      by (simp add: Cons fs(1) dp number_val_def filter_digits [OF assms(1)]
          filter_digits [OF fs(2)] plain_value_def)
  qed
qed

lemma floatnumber_plain:
  assumes "list_all is_digit ds" and "ds \<noteq> []" and "frac_opt q"
  shows "floatnumber (ds @ q) = Some (plain_value ds q)"
proof -
  have tw: "takeWhile (\<lambda>c. \<not> is_e c) (ds @ q) = ds @ q"
    and dw: "dropWhile (\<lambda>c. \<not> is_e c) (ds @ q) = []"
    using takeWhile_all [OF no_e_in_number [OF assms(1,3)]] by blast+
  show ?thesis
    unfolding floatnumber_def tw dw
    by (simp add: mantissa_plain [OF assms] exponent_def scale10_def)
qed

lemma absfloatvalue_plain:
  assumes "list_all is_digit ds" and "ds \<noteq> []" and "frac_opt q"
  shows "absfloatvalue (ds @ q) = Some (Fin (plain_value ds q))"
proof -
  obtain d ds' where ds: "ds = d # ds'" using assms(2) by (cases ds) auto
  then have "is_digit d" using assms(1) by simp
  then have "map lower (ds @ q) \<noteq> ''inf''" "map lower (ds @ q) \<noteq> ''infinity''"
    "map lower (ds @ q) \<noteq> ''nan''"
    by (auto simp: ds lower_digit dest: digit_not_special(6,7))
  then show ?thesis
    using floatnumber_plain [OF assms] by (simp add: absfloatvalue_def)
qed

lemma float_strip_id:
  assumes "s \<noteq> []" and "\<not> float_space (hd s)" and "\<not> float_space (last s)"
  shows "float_strip s = s"
proof -
  have "dropWhile float_space s = s"
    using assms(1,2) by (cases s) auto
  moreover have "dropWhile float_space (rev s) = rev s"
    using assms(1,3) by (cases "rev s") (auto simp: last_rev [symmetric] hd_rev)
  ultimately show ?thesis by (simp add: float_strip_def)
qed

lemma last_number_not_space:
  assumes "list_all is_digit ds" and "ds \<noteq> []" and "frac_opt q"
  shows "\<not> float_space (last (c # ds @ q))"
proof -
  have "is_digit (last (ds @ q))"
    using assms by (cases q) (auto simp: frac_opt_cases list_all_iff)
  then show ?thesis using assms(2) by (simp add: digit_not_special)
qed

lemma py_float_signed_plain:
  assumes "sign_char c" and "list_all is_digit ds" and "ds \<noteq> []" and "frac_opt q"
  shows "py_float (c # ds @ q) =
           Some (Fin (if c = CHR ''-'' then - plain_value ds q else plain_value ds q))"
proof -
  have "float_strip (c # ds @ q) = c # ds @ q"
    using last_number_not_space [OF assms(2,3,4)] sign_not_space [OF assms(1)]
    by (intro float_strip_id) simp_all
  then show ?thesis
    using assms(1) absfloatvalue_plain [OF assms(2,3,4)]
    by (auto simp: py_float_def sign_char_def)
qed

lemma token_shape:
  assumes "alt_grouped tok \<or> alt_plain tok"
  shows "\<exists>c ds q. sign_char c \<and> list_all is_digit ds \<and> ds \<noteq> [] \<and> frac_opt q
            \<and> remove_commas tok = c # ds @ q"
proof -
  obtain c cs where tok: "tok = c # cs" and c: "sign_char c"
    using assms by (cases tok) (auto simp: alt_grouped_def alt_plain_def)
  let ?tw = "takeWhile is_digit cs" and ?dw = "dropWhile is_digit cs"
  have tw: "list_all is_digit ?tw" "?tw \<noteq> []"
    using assms tok by (auto simp: alt_grouped_def alt_plain_def list_all_iff dest: set_takeWhileD)
  have rest: "\<exists>ds q. list_all is_digit ds \<and> frac_opt q \<and> remove_commas ?dw = ds @ q"
  proof (cases "alt_plain tok")
    case True
    then have "frac_opt ?dw" using tok by (simp add: alt_plain_def)
    then have "list_all is_digit [] \<and> frac_opt ?dw \<and> remove_commas ?dw = [] @ ?dw"
      by (simp add: remove_commas_frac)
    then show ?thesis by blast
  next
    case False
    then have "comma_groups ?dw" using assms tok by (simp add: alt_grouped_def)
    then show ?thesis by (rule comma_groups_shape)
  qed
  then obtain ds q where dq: "list_all is_digit ds" "frac_opt q" "remove_commas ?dw = ds @ q"
    by blast
  have "c \<noteq> CHR '',''" using c by (auto simp: sign_char_def)
  then have "remove_commas tok = c # remove_commas cs"
    by (simp add: tok remove_commas_def)
  also have "remove_commas cs = remove_commas ?tw @ remove_commas ?dw"
    by (metis remove_commas_append takeWhile_dropWhile_id)
  also have "\<dots> = (?tw @ ds) @ q"
    using tw(1) dq(3) by (simp add: remove_commas_digits)
  finally show ?thesis
    using c tw dq(1,2) by (intro exI[of _ c] exI[of _ "?tw @ ds"] exI[of _ q]) simp
qed

lemma parse_signed_token_value:
  assumes "alt_grouped tok \<or> alt_plain tok"
  shows "\<exists>c ds q. sign_char c \<and> list_all is_digit ds \<and> ds \<noteq> [] \<and> frac_opt q
            \<and> remove_commas tok = c # ds @ q
            \<and> parse_signed_token tok =
                Some (Fin (if c = CHR ''-'' then - plain_value ds q else plain_value ds q))"
proof -
  obtain c ds q where t: "sign_char c" "list_all is_digit ds" "ds \<noteq> []" "frac_opt q"
    "remove_commas tok = c # ds @ q"
    using token_shape [OF assms] by blast
  then have "parse_signed_token tok =
      Some (Fin (if c = CHR ''-'' then - plain_value ds q else plain_value ds q))"
    using py_float_signed_plain [of c ds q] by (simp add: parse_signed_token_def)
  then show ?thesis using t by blast
qed

lemma re_match_Some:
  "re_match t = Some tok \<Longrightarrow> alt_grouped tok \<or> alt_plain tok"
  by (auto simp: re_match_def Let_def split: if_splits)

section \<open>Properties of the handlers\<close>

lemma get_rate_frame [simp]:
  "entries (snd (get_rate s)) = entries s" "seq (snd (get_rate s)) = seq s"
  by (simp_all add: get_rate_def set_rate_def split: option.split meta_text.split)

lemma next_id_get_rate [simp]: "next_id (snd (get_rate s)) = next_id s"
  by (simp add: next_id_def)

lemma get_rate_stored:
  "meta s ''rate'' = Some (FloatText x) \<Longrightarrow> get_rate s = (x, s)"
  by (simp add: get_rate_def)

lemma build_report_Inr: "build_report n s = Inr r \<Longrightarrow> snd r = snd (get_rate s)"
  by (auto simp: build_report_def split: if_splits)

text \<open>The division of \<^verbatim>\<open>val / rate if rate != 0 else 0.0\<close> never raises, and on two
  numbers it is the exact quotient.\<close>

lemma to_usdt_Inr: "\<exists>u. to_usdt val rate = Inr u"
  by (cases rate; cases val) (simp_all add: to_usdt_def truediv_def)

lemma to_usdt_number: "to_usdt (Fin v) (Fin r) = Inr (Fin (if r = 0 then 0 else v / r))"
  by (simp add: to_usdt_def truediv_def)

lemma to_usdt_nan_rate: "to_usdt val NaN = Inr NaN"
  by (simp add: to_usdt_def truediv_def)

lemma to_usdt_same_sign:
  assumes "0 \<le> (r::real)"
  shows "(0 \<le> (v::real) \<and> 0 \<le> (if r = 0 then 0 else v / r))
       \<or> (v \<le> 0 \<and> (if r = 0 then 0 else v / r) \<le> 0)"
proof (cases "0 \<le> v")
  case True
  then have "0 \<le> v / r" using assms by (rule divide_nonneg_nonneg)
  then show ?thesis using True by simp
next
  case False
  then have v: "v \<le> 0" by simp
  then have "v / r \<le> 0" using assms by (rule divide_nonpos_nonneg)
  then show ?thesis using v by simp
qed

lemma convert_and_add_result:
  assumes "to_usdt val (fst (get_rate s)) = Inr usdt"
  shows "convert_and_add uid name val now s =
     (Inr usdt,
      (snd (get_rate s))\<lparr>entries := entries s @
          [\<lparr>eid = next_id s, user_id = uid, username = name, amount_inr = bind_real val,
            amount_usdt = bind_real usdt, ts = now\<rparr>],
        seq := next_id s\<rparr>)"
  unfolding convert_and_add_def Let_def assms
  by (simp add: add_entry_appends)

lemma record_payment_entries:
  "entries (fst (record_payment msg target val now s))
     = entries (snd (convert_and_add (u_id target) (display_name target) val now s))"
proof -
  obtain res s1
    where c: "convert_and_add (u_id target) (display_name target) val now s = (res, s1)"
    by (cases "convert_and_add (u_id target) (display_name target) val now s")
  show ?thesis
  proof (cases res)
    case (Inl h)
    then show ?thesis by (simp add: record_payment_def c)
  next
    case (Inr usdt)
    show ?thesis
    proof (cases "build_report 10 s1")
      case (Inl h)
      then show ?thesis by (simp add: record_payment_def c Inr)
    next
      case (Inr r)
      then have "entries (snd r) = entries s1"
        using build_report_Inr [of 10 s1 r] by simp
      then show ?thesis by (simp add: record_payment_def c \<open>res = Inr usdt\<close> Inr)
    qed
  qed
qed

lemma strip_Nil [simp]: "strip [] = []"
  by (simp add: strip_def)

lemma re_match_Nil [simp]: "re_match [] = None"
  by (simp add: re_match_def alt_grouped_def alt_plain_def)

lemma message_handler_admin:
  assumes "m_reply_to msg = Some target"
    and "re_match (strip (or_empty (m_text msg))) = Some tok"
    and "is_admin_status st"
    and "parse_signed_token tok = Some (Fin v)"
  shows "message_handler (Some msg) (Some st) now s =
           (if \<bar>v\<bar> < 1 / 100000 then (s, []) else record_payment msg target (Fin v) now s)"
proof -
  have "or_empty (m_text msg) \<noteq> []"
    using assms(2) by (cases "or_empty (m_text msg) = []") simp_all
  then show ?thesis
    by (simp add: message_handler_def assms)
qed

text \<open>
  The reply of an administrator with a text that matches the pattern, at a rate that is
  a number. The token is a sign, digits and possibly a point and digits once its commas
  are removed, and \<^verbatim>\<open>parse_signed_token\<close> reads it as that number \<open>v\<close>. When the
  magnitude of \<open>v\<close> is at least 0.00001 the handler appends exactly one entry: its
  \<^verbatim>\<open>amount_inr\<close> is \<open>v\<close> and its \<^verbatim>\<open>amount_usdt\<close> is \<open>v\<close> divided by the rate, or 0 when
  the rate is 0; at a rate that is not negative the two have the same sign. When the
  magnitude is smaller the handler writes nothing.
\<close>

lemma message_handler_appends_entry:
  assumes "m_reply_to msg = Some target"
    and "re_match (strip (or_empty (m_text msg))) = Some tok"
    and "is_admin_status st"
    and "fst (get_rate s) = Fin r"
  shows "\<exists>c ds q. sign_char c \<and> list_all is_digit ds \<and> ds \<noteq> [] \<and> frac_opt q
           \<and> remove_commas tok = c # ds @ q
           \<and> parse_signed_token tok =
               Some (Fin (if c = CHR ''-'' then - plain_value ds q else plain_value ds q))
           \<and> (\<forall>v. parse_signed_token tok = Some (Fin v) \<longrightarrow>
                (\<bar>v\<bar> < 1 / 100000 \<longrightarrow> message_handler (Some msg) (Some st) now s = (s, []))
                \<and> (1 / 100000 \<le> \<bar>v\<bar> \<longrightarrow>
                     entries (fst (message_handler (Some msg) (Some st) now s)) =
                       entries s @
                         [\<lparr>eid = next_id s, user_id = u_id target,
                           username = display_name target, amount_inr = SqlReal v,
                           amount_usdt = SqlReal (if r = 0 then 0 else v / r), ts = now\<rparr>]))"
proof -
  obtain c ds q where t: "sign_char c" "list_all is_digit ds" "ds \<noteq> []" "frac_opt q"
    "remove_commas tok = c # ds @ q"
    "parse_signed_token tok =
       Some (Fin (if c = CHR ''-'' then - plain_value ds q else plain_value ds q))"
    using parse_signed_token_value [OF re_match_Some [OF assms(2)]] by blast
  have run: "entries (fst (message_handler (Some msg) (Some st) now s)) =
       entries s @
         [\<lparr>eid = next_id s, user_id = u_id target, username = display_name target,
           amount_inr = SqlReal v, amount_usdt = SqlReal (if r = 0 then 0 else v / r),
           ts = now\<rparr>]"
    if v: "parse_signed_token tok = Some (Fin v)" and big: "1 / 100000 \<le> \<bar>v\<bar>" for v
  proof -
    have u: "to_usdt (Fin v) (fst (get_rate s)) = Inr (Fin (if r = 0 then 0 else v / r))"
      by (simp only: assms(4) to_usdt_number)
    have "message_handler (Some msg) (Some st) now s = record_payment msg target (Fin v) now s"
      using big by (simp add: message_handler_admin [OF assms(1,2,3) v])
    then show ?thesis
      by (simp add: record_payment_entries convert_and_add_result [OF u])
  qed
  have small: "message_handler (Some msg) (Some st) now s = (s, [])"
    if v: "parse_signed_token tok = Some (Fin v)" and "\<bar>v\<bar> < 1 / 100000" for v
    using that by (simp add: message_handler_admin [OF assms(1,2,3) v])
  show ?thesis
    using t run small by blast
qed

lemma next_id_alice_bob: "next_id ledger_alice_bob = 3"
  by (simp add: next_id_def max_id_def ledger_alice_bob_def)

lemma names_of_bob: "display_name bob = ''Bob''" "u_id bob = 12"
  by (simp_all add: display_name_def bob_def or_empty_def)

text \<open>So the reply \<^verbatim>\<open>+1,000\<close> to a message of Bob, at the rate 100, appends an entry
  of 1000 and 10.\<close>

lemma message_handler_appends_entry_example:
  "re_match (strip (or_empty (m_text reply_plus_1000))) = Some ''+1,000''
   \<and> parse_signed_token ''+1,000'' = Some (Fin 1000)
   \<and> entries (fst (message_handler (Some reply_plus_1000) (Some ''administrator'')
                      ''2024-01-01T10:10:00+00:00'' ledger_alice_bob)) =
       entries ledger_alice_bob @
         [\<lparr>eid = 3, user_id = 12, username = ''Bob'', amount_inr = SqlReal 1000,
           amount_usdt = SqlReal 10, ts = ''2024-01-01T10:10:00+00:00''\<rparr>]"
proof -
  have h1: "m_reply_to reply_plus_1000 = Some bob"
    by (simp add: reply_plus_1000_def)
  have h2: "re_match (strip (or_empty (m_text reply_plus_1000))) = Some ''+1,000''"
    by (simp add: reply_plus_1000_def match_eval)
  have h3: "is_admin_status ''administrator''"
    by (simp add: is_admin_status_def)
  have h4: "fst (get_rate ledger_alice_bob) = Fin 100"
    by (simp add: get_rate_def ledger_alice_bob_def)
  have p: "parse_signed_token ''+1,000'' = Some (Fin 1000)"
    by (simp add: float_eval)
  from message_handler_appends_entry [OF h1 h2 h3 h4, of "''2024-01-01T10:10:00+00:00''"]
  show ?thesis
    using h2 p by (auto simp: names_of_bob next_id_alice_bob)
qed

text \<open>The comparison \<^verbatim>\<open>r <= 0\<close> is false for NaN, so \<^verbatim>\<open>/rate nan\<close> passes the check
  of \<^verbatim>\<open>rate_cmd\<close> and NaN becomes the stored rate.\<close>

lemma rate_cmd_takes_nan:
  "rate_cmd (Some ''administrator'') [''nan''] s = (set_rate NaN s, [RateUpdated NaN])"
proof -
  have "py_float ''nan'' = Some NaN"
    by (simp add: float_eval)
  then show ?thesis
    by (simp add: rate_cmd_def is_admin_status_def)
qed

lemma reply_plus_5_matches:
  "m_reply_to reply_plus_5 = Some bob"
  "re_match (strip (or_empty (m_text reply_plus_5))) = Some ''+5''"
  "parse_signed_token ''+5'' = Some (Fin 5)"
  by (simp_all add: reply_plus_5_def match_eval float_eval)

lemma nan_rate_state:
  "set_rate NaN (init_db empty_db)
     = \<lparr>entries = [], seq = 0, meta = [''rate'' \<mapsto> FloatText NaN]\<rparr>"
  by (simp add: init_db_empty set_rate_def)

lemma message_handler_at_nan_rate:
  "message_handler (Some reply_plus_5) (Some ''administrator'') ''2024-01-01T10:10:00+00:00''
     (set_rate NaN (init_db empty_db)) =
   (\<lparr>entries = [\<lparr>eid = 1, user_id = 12, username = ''Bob'', amount_inr = SqlReal 5,
                  amount_usdt = SqlNull, ts = ''2024-01-01T10:10:00+00:00''\<rparr>],
      seq = 1, meta = [''rate'' \<mapsto> FloatText NaN]\<rparr>,
    [Recorded (Some ''Ann'') ''Bob'' (Fin 5) NaN, Uncaught TypeError])"
proof -
  let ?s = "set_rate NaN (init_db empty_db)"
  let ?row = "\<lparr>eid = 1, user_id = 12, username = ''Bob'', amount_inr = SqlReal 5,
               amount_usdt = SqlNull, ts = ''2024-01-01T10:10:00+00:00''\<rparr>"
  let ?s1 = "\<lparr>entries = [?row], seq = 1, meta = [''rate'' \<mapsto> FloatText NaN]\<rparr>"
  have g: "get_rate ?s = (NaN, ?s)"
    by (simp add: nan_rate_state get_rate_def)
  have u: "to_usdt (Fin 5) (fst (get_rate ?s)) = Inr NaN"
    by (simp add: g to_usdt_nan_rate)
  have n: "next_id ?s = 1"
    by (simp add: nan_rate_state next_id_def max_id_def)
  have c: "convert_and_add 12 ''Bob'' (Fin 5) ''2024-01-01T10:10:00+00:00'' ?s = (Inr NaN, ?s1)"
    by (simp add: convert_and_add_result [OF u] g n) (simp add: nan_rate_state)
  have b: "build_report 10 ?s1 = Inl TypeError"
    by (simp add: build_report_def recent_raises_def get_last_entries_def order_by_id_desc_def
        sql_limit_def recent_cols_def)
  have "message_handler (Some reply_plus_5) (Some ''administrator'')
          ''2024-01-01T10:10:00+00:00'' ?s
        = record_payment reply_plus_5 bob (Fin 5) ''2024-01-01T10:10:00+00:00'' ?s"
    using message_handler_admin [OF reply_plus_5_matches(1,2) _ reply_plus_5_matches(3),
        of "''administrator''" "''2024-01-01T10:10:00+00:00''" ?s]
    by (simp add: is_admin_status_def)
  also have "\<dots> = (?s1, [Recorded (Some ''Ann'') ''Bob'' (Fin 5) NaN, Uncaught TypeError])"
    unfolding record_payment_def names_of_bob c prod.case sum.case Let_def b
    by (simp add: reply_plus_5_def admin_user_def or_empty_def)
  finally show ?thesis .
qed

text \<open>
  Claim C1 says that the entry of a reply holds the parsed value and that value divided
  by the rate in force. \<^verbatim>\<open>rate_cmd\<close> rejects a rate \<open>r\<close> when \<^verbatim>\<open>r <= 0\<close>, which is
  false for NaN: after \<^verbatim>\<open>/rate nan\<close> of an administrator the rate in force is NaN. The
  reply \<^verbatim>\<open>+5\<close> to a message of Bob then matches the pattern and is read as 5; the
  quotient \<^verbatim>\<open>5 / nan\<close> is NaN, and the entry is written with \<^verbatim>\<open>amount_inr\<close> 5 and
  \<^verbatim>\<open>amount_usdt\<close> NULL: no number, and of no sign. The handler sends its
  confirmation and ends in the \<^verbatim>\<open>TypeError\<close> of \<^verbatim>\<open>build_report\<close>.
\<close>

theorem message_handler_stores_null_at_nan_rate:
  "rate_cmd (Some ''administrator'') [''nan''] (init_db empty_db)
     = (set_rate NaN (init_db empty_db), [RateUpdated NaN])
   \<and> get_rate (set_rate NaN (init_db empty_db)) = (NaN, set_rate NaN (init_db empty_db))
   \<and> re_match (strip (or_empty (m_text reply_plus_5))) = Some ''+5''
   \<and> parse_signed_token ''+5'' = Some (Fin 5)
   \<and> to_usdt (Fin 5) NaN = Inr NaN
   \<and> entries (fst (message_handler (Some reply_plus_5) (Some ''administrator'')
                      ''2024-01-01T10:10:00+00:00'' (set_rate NaN (init_db empty_db))))
       = [\<lparr>eid = 1, user_id = 12, username = ''Bob'', amount_inr = SqlReal 5,
           amount_usdt = SqlNull, ts = ''2024-01-01T10:10:00+00:00''\<rparr>]
   \<and> snd (message_handler (Some reply_plus_5) (Some ''administrator'')
             ''2024-01-01T10:10:00+00:00'' (set_rate NaN (init_db empty_db)))
       = [Recorded (Some ''Ann'') ''Bob'' (Fin 5) NaN, Uncaught TypeError]"
proof -
  have "get_rate (set_rate NaN (init_db empty_db)) = (NaN, set_rate NaN (init_db empty_db))"
    by (simp add: nan_rate_state get_rate_def)
  then show ?thesis
    by (simp add: rate_cmd_takes_nan reply_plus_5_matches to_usdt_nan_rate
        message_handler_at_nan_rate)
qed

text \<open>On the reply path an entry is created only for a magnitude of at least 0.00001.\<close>

lemma message_handler_no_small_entry:
  "entries (fst (message_handler upd status now s)) = entries s
   \<or> (\<exists>e val. entries (fst (message_handler upd status now s)) = entries s @ [e]
         \<and> amount_inr e = bind_real val \<and> \<not> f_lt (f_abs val) (Fin (1 / 100000)))"
proof (cases "entries (fst (message_handler upd status now s)) = entries s")
  case True
  then show ?thesis by simp
next
  case False
  then obtain msg target val
    where big: "\<not> f_lt (f_abs val) (Fin (1 / 100000))"
      and rp: "message_handler upd status now s = record_payment msg target val now s"
    by (auto simp: message_handler_def split: option.splits if_splits)
  obtain u where u: "to_usdt val (fst (get_rate s)) = Inr u"
    using to_usdt_Inr by blast
  have "entries (fst (message_handler upd status now s)) =
      entries s @ [\<lparr>eid = next_id s, user_id = u_id target, username = display_name target,
                    amount_inr = bind_real val, amount_usdt = bind_real u, ts = now\<rparr>]"
    by (simp add: rp record_payment_entries convert_and_add_result [OF u])
  then show ?thesis using big by auto
qed

text \<open>
  Claim C3 says that no path creates an entry whose \<^verbatim>\<open>amount_inr\<close> is below
  0.00001 in magnitude. \<^verbatim>\<open>message_handler\<close> returns before \<^verbatim>\<open>add_entry\<close> on such a
  value (line 292); \<^verbatim>\<open>add_cmd\<close> has no such check on either of its paths. An
  administrator who replies to a message of Bob with \<^verbatim>\<open>/add 0\<close>, or who sends
  \<^verbatim>\<open>/add Bob 0\<close>, creates an entry of amount 0.
\<close>

theorem add_cmd_records_zero_amount:
  "add_cmd (Some ''administrator'') (Some bob) [''0''] ''2024-01-01T10:10:00+00:00''
     ledger_alice_bob =
   (ledger_alice_bob
      \<lparr>entries := entries ledger_alice_bob @
         [\<lparr>eid = 3, user_id = 12, username = ''Bob'', amount_inr = SqlReal 0,
           amount_usdt = SqlReal 0, ts = ''2024-01-01T10:10:00+00:00''\<rparr>],
       seq := 3\<rparr>,
    [Added ''Bob'' (Fin 0) (Fin 0)])
   \<and> add_cmd (Some ''administrator'') None [''Bob'', ''0''] ''2024-01-01T10:10:00+00:00''
     ledger_alice_bob =
   (ledger_alice_bob
      \<lparr>entries := entries ledger_alice_bob @
         [\<lparr>eid = 3, user_id = 0, username = ''Bob'', amount_inr = SqlReal 0,
           amount_usdt = SqlReal 0, ts = ''2024-01-01T10:10:00+00:00''\<rparr>],
       seq := 3\<rparr>,
    [Added ''Bob'' (Fin 0) (Fin 0)])"
proof -
  have p: "py_float (remove_commas ''0'') = Some (Fin 0)"
    by (simp add: float_eval)
  have g: "get_rate ledger_alice_bob = (Fin 100, ledger_alice_bob)"
    by (simp add: get_rate_def ledger_alice_bob_def)
  have u: "to_usdt (Fin 0) (fst (get_rate ledger_alice_bob)) = Inr (Fin 0)"
    by (simp add: g to_usdt_number)
  show ?thesis
    by (simp add: add_cmd_def add_for_def is_admin_status_def p names_of_bob
        convert_and_add_result [OF u] g next_id_alice_bob)
qed

section \<open>The signs of the stored amounts\<close>

text \<open>No handler rewrites a stored entry: after a step the table holds rows it held
  before, or the rows it held before and one new row.\<close>

lemma convert_and_add_entries:
  "entries (snd (convert_and_add uid name val now s)) =
     entries s @ [\<lparr>eid = next_id s, user_id = uid, username = name, amount_inr = bind_real val,
                   amount_usdt = bind_real (projr (to_usdt val (fst (get_rate s)))), ts = now\<rparr>]"
proof -
  obtain u where u: "to_usdt val (fst (get_rate s)) = Inr u"
    using to_usdt_Inr by blast
  show ?thesis
    by (simp add: convert_and_add_result [OF u] u)
qed

lemma add_for_entries:
  "entries (fst (add_for uid name val now s)) =
     entries (snd (convert_and_add uid name val now s))"
  by (cases "convert_and_add uid name val now s"; cases "fst (convert_and_add uid name val now s)")
    (simp_all add: add_for_def)

lemma step_keeps_entries:
  "set (entries (step ev s)) \<subseteq> set (entries s)
   \<or> (\<exists>e. entries (step ev s) = entries s @ [e] \<and> eid e = next_id s)"
proof (cases ev)
  case (Message upd status now)
  have "entries (fst (message_handler upd status now s)) = entries s
      \<or> (\<exists>e. entries (fst (message_handler upd status now s)) = entries s @ [e]
            \<and> eid e = next_id s)"
    by (auto simp: message_handler_def record_payment_entries convert_and_add_entries
        split: option.splits)
  then show ?thesis by (auto simp: step_def Message)
next
  case (RateCmd status args)
  then show ?thesis
    by (auto simp: step_def rate_cmd_def set_rate_def split: option.splits list.splits)
next
  case SummaryCmd
  have "entries (fst (summary_cmd s)) = entries s"
    by (cases "build_report 12 s") (auto simp: summary_cmd_def dest: build_report_Inr)
  then show ?thesis by (simp add: step_def SummaryCmd)
next
  case (AddCmd status reply_to args now)
  have "entries (fst (add_cmd status reply_to args now s)) = entries s
      \<or> (\<exists>e. entries (fst (add_cmd status reply_to args now s)) = entries s @ [e]
            \<and> eid e = next_id s)"
    by (auto simp: add_cmd_def add_for_entries convert_and_add_entries split: option.splits)
  then show ?thesis by (auto simp: step_def AddCmd)
next
  case (UndoCmd status)
  have "set (entries (snd (delete_last_entry s))) \<subseteq> set (entries s)"
    by (cases "entries s = []") (auto simp: delete_last_entry_empty delete_last_entry_nonempty)
  then show ?thesis
    by (auto simp: step_def UndoCmd undo_cmd_def split: option.splits)
next
  case (ResetCallback cb_data status)
  have "entries (fst (reset_callback cb_data status s)) = entries s
      \<or> entries (fst (reset_callback cb_data status s)) = []"
    by (cases "build_report 10 (reset_ledger s)")
      (auto simp: reset_callback_def reset_ledger_def split: option.splits
        dest: build_report_Inr)
  then show ?thesis by (auto simp: step_def ResetCallback)
next
  case Restart
  then show ?thesis
    by (auto simp: step_def init_db_def set_rate_def split: option.splits)
qed

lemma add_cmd_nan:
  "entries (fst (add_cmd (Some ''administrator'') None [''Bob'', ''nan'']
                   ''2024-01-01T10:00:00+00:00'' (init_db empty_db)))
     = [\<lparr>eid = 1, user_id = 0, username = ''Bob'', amount_inr = SqlNull,
         amount_usdt = SqlNull, ts = ''2024-01-01T10:00:00+00:00''\<rparr>]"
proof -
  have p: "py_float (remove_commas ''nan'') = Some NaN"
    by (simp add: float_eval)
  have u: "to_usdt NaN (Fin (187 / 2)) = Inr NaN"
    by (simp add: to_usdt_def truediv_def)
  show ?thesis
    by (simp add: add_cmd_def is_admin_status_def p add_for_def convert_and_add_def
        get_rate_init u add_entry_appends next_id_init)
      (simp add: init_db_empty)
qed

text \<open>
  Claim C10 says that the two amounts of every stored entry have the same sign. From a
  new database, \<^verbatim>\<open>/rate nan\<close> of an administrator and then the reply \<^verbatim>\<open>+5\<close> to a
  message of Bob leave an entry with \<^verbatim>\<open>amount_inr\<close> 5 and \<^verbatim>\<open>amount_usdt\<close> NULL; and
  \<^verbatim>\<open>/add Bob nan\<close> alone leaves an entry with NULL in both columns. NULL is neither
  at least 0 nor at most 0, so neither entry has two amounts of the same sign.
\<close>

theorem stored_amounts_without_sign:
  "map (\<lambda>e. (eid e, username e, amount_inr e, amount_usdt e))
     (entries (run [RateCmd (Some ''administrator'') [''nan''],
                    Message (Some reply_plus_5) (Some ''administrator'')
                      ''2024-01-01T10:10:00+00:00'']))
     = [(1, ''Bob'', SqlReal 5, SqlNull)]
   \<and> list_ex (\<lambda>e. \<not> same_sign e)
       (entries (run [RateCmd (Some ''administrator'') [''nan''],
                      Message (Some reply_plus_5) (Some ''administrator'')
                        ''2024-01-01T10:10:00+00:00'']))
   \<and> map (\<lambda>e. (eid e, username e, amount_inr e, amount_usdt e))
       (entries (run [AddCmd (Some ''administrator'') None [''Bob'', ''nan'']
                        ''2024-01-01T10:00:00+00:00'']))
     = [(1, ''Bob'', SqlNull, SqlNull)]
   \<and> list_ex (\<lambda>e. \<not> same_sign e)
       (entries (run [AddCmd (Some ''administrator'') None [''Bob'', ''nan'']
                        ''2024-01-01T10:00:00+00:00'']))"
proof -
  have r1: "entries (run [RateCmd (Some ''administrator'') [''nan''],
                    Message (Some reply_plus_5) (Some ''administrator'')
                      ''2024-01-01T10:10:00+00:00''])
      = [\<lparr>eid = 1, user_id = 12, username = ''Bob'', amount_inr = SqlReal 5,
           amount_usdt = SqlNull, ts = ''2024-01-01T10:10:00+00:00''\<rparr>]"
    by (simp add: run_def step_def rate_cmd_takes_nan message_handler_at_nan_rate)
  have r2: "entries (run [AddCmd (Some ''administrator'') None [''Bob'', ''nan'']
                        ''2024-01-01T10:00:00+00:00''])
      = [\<lparr>eid = 1, user_id = 0, username = ''Bob'', amount_inr = SqlNull,
           amount_usdt = SqlNull, ts = ''2024-01-01T10:00:00+00:00''\<rparr>]"
    by (simp add: run_def step_def add_cmd_nan)
  show ?thesis
    by (simp add: r1 r2 same_sign_def)
qed

section \<open>The stored rate\<close>

text \<open>
  Claim C7 says that \<^verbatim>\<open>get_rate\<close> writes the default rate over a stored rate that is
  not a number. The \<^verbatim>\<open>except\<close> branch of \<^verbatim>\<open>get_rate\<close> returns the default and writes
  nothing: the stored text is the same after the call. Only when no rate is stored
  does \<^verbatim>\<open>get_rate\<close> call \<^verbatim>\<open>set_rate(DEFAULT_RATE)\<close>.
\<close>

theorem get_rate_leaves_malformed_rate:
  "get_rate ledger_bad_rate = (DEFAULT_RATE, ledger_bad_rate)
   \<and> meta (snd (get_rate ledger_bad_rate)) ''rate'' = Some (OtherText ''abc'')
   \<and> meta (snd (get_rate ledger_bad_rate)) ''rate'' \<noteq> Some (FloatText DEFAULT_RATE)
   \<and> meta (snd (get_rate empty_db)) ''rate'' = Some (FloatText DEFAULT_RATE)"
  by (simp add: get_rate_def ledger_bad_rate_def empty_db_def set_rate_def)

text \<open>
  Claim C6 says that the store's operation rejects a rate that is not above zero.
  \<^verbatim>\<open>set_rate\<close> has no check: it stores \<open>- 1\<close> over the default rate.
\<close>

theorem set_rate_takes_nonpositive:
  "f_le (Fin (- 1)) (Fin 0)
   \<and> meta (init_db empty_db) ''rate'' = Some (FloatText (Fin (187 / 2)))
   \<and> meta (set_rate (Fin (- 1)) (init_db empty_db)) ''rate'' = Some (FloatText (Fin (- 1)))
   \<and> \<not> (meta (set_rate (Fin (- 1)) (init_db empty_db)) ''rate'' = meta (init_db empty_db) ''rate'')"
  by (simp add: init_db_def empty_db_def set_rate_def DEFAULT_RATE_def)

lemma f_lt_zero_not_le: "f_lt (Fin 0) r \<Longrightarrow> \<not> f_le r (Fin 0)"
  by (cases r) simp_all

text \<open>
  Claim C6, amended. \<^verbatim>\<open>set_rate\<close> stores whatever rate it is given. The check is in
  \<^verbatim>\<open>rate_cmd\<close>: for an administrator, a first argument that \<^verbatim>\<open>float\<close> rejects, or
  that it reads as a value \<open>r\<close> with \<^verbatim>\<open>r <= 0\<close>, is answered with "Provide a valid
  positive rate" and the database is unchanged; a first argument read as a value above
  zero is stored by \<^verbatim>\<open>set_rate\<close>.
\<close>

theorem rate_cmd_guards_set_rate:
  assumes "is_admin_status st"
  shows "meta (set_rate v s) ''rate'' = Some (FloatText v)
       \<and> (py_float a = None \<longrightarrow> rate_cmd (Some st) (a # args) s = (s, [ProvideValidRate]))
       \<and> (\<forall>r. py_float a = Some r \<and> f_le r (Fin 0) \<longrightarrow>
            rate_cmd (Some st) (a # args) s = (s, [ProvideValidRate]))
       \<and> (\<forall>r. py_float a = Some r \<and> f_lt (Fin 0) r \<longrightarrow>
            rate_cmd (Some st) (a # args) s = (set_rate r s, [RateUpdated r]))"
  using assms by (auto simp: rate_cmd_def set_rate_def dest: f_lt_zero_not_le)

theorem rate_cmd_guards_set_rate_witness:
  "is_admin_status ''administrator''
   \<and> py_float ''-5'' = Some (Fin (- 5)) \<and> f_le (Fin (- 5)) (Fin 0)
   \<and> rate_cmd (Some ''administrator'') [''-5''] ledger_alice_bob
       = (ledger_alice_bob, [ProvideValidRate])
   \<and> py_float ''abc'' = None
   \<and> rate_cmd (Some ''administrator'') [''abc''] ledger_alice_bob
       = (ledger_alice_bob, [ProvideValidRate])
   \<and> py_float ''93.5'' = Some (Fin (187 / 2)) \<and> f_lt (Fin 0) (Fin (187 / 2))
   \<and> rate_cmd (Some ''administrator'') [''93.5''] ledger_alice_bob
       = (set_rate (Fin (187 / 2)) ledger_alice_bob, [RateUpdated (Fin (187 / 2))])"
proof -
  have a: "is_admin_status ''administrator''"
    by (simp add: is_admin_status_def)
  have p: "py_float ''-5'' = Some (Fin (- 5))" "py_float ''abc'' = None"
    "py_float ''93.5'' = Some (Fin (187 / 2))"
    by (simp_all add: float_eval)
  show ?thesis
    using rate_cmd_guards_set_rate [OF a, where a = "''-5''" and args = "[]" and s = ledger_alice_bob]
      rate_cmd_guards_set_rate [OF a, where a = "''abc''" and args = "[]" and s = ledger_alice_bob]
      rate_cmd_guards_set_rate [OF a, where a = "''93.5''" and args = "[]" and s = ledger_alice_bob]
    by (simp add: a p)
qed


end
